theory Spec2Isabelle
  imports Complex_Main
begin

section \<open>Data model\<close>

text \<open>
  The notebook's own code is the renderer \<open>plot_svc_decision_function\<close> and the driver
  \<open>plot_svm\<close>. Both work on floating-point arrays; the embedding reads every float as
  a real number, so that \<open>np.linspace\<close> is exact. A 2D point is a pair, an array of
  shape \<open>(n, 2)\<close> a list of pairs, a 1D array a list and a 2D array a list of rows.
\<close>

type_synonym point = "real \<times> real"
type_synonym array1 = "real list"
type_synonym array2 = "real list list"

datatype error = ValueError | IndexError | NotFittedError

text \<open>
  A fitted classifier, as far as the notebook uses it: \<open>clf.decision_function\<close> takes an
  array of points and returns one score per point or raises, and
  \<open>clf.support_vectors_\<close> (the field \<open>support_vectors\<close>) is an array of points.
\<close>

record classifier =
  decision_function :: "point list \<Rightarrow> error + array1"
  support_vectors :: "point list"

text \<open>
  What is drawn on a surface. \<open>Scatter x y c s cmap linewidths edgecolors\<close> and
  \<open>Contour X Y Z colors levels alpha linestyles\<close> keep the arguments of the calls
  \<open>scatter\<close> and \<open>contour\<close> in the order the source passes them.
\<close>

datatype color_arg = CValues "int list" | CName string

datatype artist =
    Scatter array1 array1 color_arg real "string option" "real option" "string option"
  | Contour array2 array2 array2 string "real list" real "string list"

record axes =
  xlim :: "real \<times> real"
  ylim :: "real \<times> real"
  autoscalex_on :: bool
  autoscaley_on :: bool
  artists :: "artist list"

text \<open>Calls into scikit-learn, in the order they are made.\<close>

datatype call =
    MakeBlobs nat nat int real
  | Fit string "point list" "int list"
  | DecisionFunction nat "point list"

text \<open>
  The libraries the notebook imports are parameters of the model: \<open>make_blobs\<close> with its
  arguments \<open>n_samples\<close>, \<open>centers\<close>, \<open>random_state\<close>, \<open>cluster_std\<close>; \<open>svc_fit kernel X y\<close>
  for \<open>SVC(kernel=...).fit(X, y)\<close>, which raises or yields the fitted classifier; and
  \<open>autoscale_view\<close>, the limits matplotlib derives from everything drawn on a surface
  whose limits were not set by hand.
\<close>

record lib =
  make_blobs :: "nat \<Rightarrow> nat \<Rightarrow> int \<Rightarrow> real \<Rightarrow> point list \<times> int list"
  svc_fit :: "string \<Rightarrow> point list \<Rightarrow> int list \<Rightarrow> error + classifier"
  autoscale_view :: "artist list \<Rightarrow> (real \<times> real) \<times> (real \<times> real)"

text \<open>
  The interpreter's state: classifier objects and drawing surfaces live in stores and
  are passed by reference; \<open>figs\<close> is pyplot's list of open figures, the current figure
  first, each figure being the list of its surfaces, the current one first.
\<close>

record world =
  clf_heap :: "nat \<Rightarrow> classifier"
  next_clf :: nat
  axes_heap :: "nat \<Rightarrow> axes"
  next_ax :: nat
  figs :: "nat list list"
  lib_calls :: "call list"

section \<open>numpy\<close>

definition linspace :: "real \<Rightarrow> real \<Rightarrow> nat \<Rightarrow> array1" where
  "linspace start stop num =
     (let dv = num - 1;
          delta = stop - start;
          y0 = map real [0..<num];
          y1 = (if 0 < dv then map (\<lambda>v. v * (delta / real dv)) y0
                else map (\<lambda>v. v * delta) y0);
          y2 = map (\<lambda>v. v + start) y1
      in if 1 < num then y2[num - 1 := stop] else y2)"

text \<open>\<open>np.meshgrid(a, b)\<close> with the default \<open>xy\<close> indexing: both results have one row
  per element of \<open>b\<close> and one column per element of \<open>a\<close>.\<close>

definition meshgrid :: "array1 \<Rightarrow> array1 \<Rightarrow> array2 \<times> array2" where
  "meshgrid a b = (replicate (length b) a, map (\<lambda>v. replicate (length a) v) b)"

definition zeros_like :: "array2 \<Rightarrow> array2" where
  "zeros_like A = map (map (\<lambda>_. 0)) A"

text \<open>\<open>P[i, j] = r\<close> where \<open>r\<close> is a 1D array: numpy stores the single element of \<open>r\<close>
  and raises when \<open>r\<close> has another size or the index is out of bounds.\<close>

definition setitem2 :: "array2 \<Rightarrow> nat \<Rightarrow> nat \<Rightarrow> array1 \<Rightarrow> error + array2" where
  "setitem2 P i j r =
     (if i < length P \<and> j < length (P ! i)
      then (case r of [v] \<Rightarrow> Inr (P[i := (P ! i)[j := v]]) | _ \<Rightarrow> Inl ValueError)
      else Inl IndexError)"

text \<open>The slice \<open>xs[:N]\<close>: a negative bound counts from the end, and the bound is
  clipped to the length.\<close>

definition slice_to :: "'a list \<Rightarrow> int \<Rightarrow> 'a list" where
  "slice_to xs N =
     (let n = int (length xs);
          stop = (if N < 0 then max 0 (N + n) else min N n)
      in take (nat stop) xs)"

section \<open>pyplot\<close>

definition new_axes :: axes where
  "new_axes = \<lparr>xlim = (0, 1), ylim = (0, 1), autoscalex_on = True, autoscaley_on = True,
               artists = []\<rparr>"

definition add_axes :: "world \<Rightarrow> nat \<times> world" where
  "add_axes w =
     (let a = next_ax w
      in (a, w\<lparr>axes_heap := (axes_heap w)(a := new_axes), next_ax := Suc a\<rparr>))"

text \<open>\<open>plt.figure()\<close> opens an empty figure and makes it current.\<close>

definition plt_figure :: "world \<Rightarrow> world" where
  "plt_figure w = w\<lparr>figs := [] # figs w\<rparr>"

text \<open>\<open>plt.gca()\<close>: the current surface of the current figure; a figure is opened when
  there is none, and a surface is added to a figure that has none.\<close>

definition gca :: "world \<Rightarrow> nat \<times> world" where
  "gca w =
     (case figs w of
        [] \<Rightarrow> (let (a, w') = add_axes w in (a, w'\<lparr>figs := [[a]]\<rparr>))
      | [] # fs \<Rightarrow> (let (a, w') = add_axes w in (a, w'\<lparr>figs := [a] # fs\<rparr>))
      | (a # as) # fs \<Rightarrow> (a, w))"

text \<open>\<open>plt.xlim()\<close> and \<open>plt.ylim()\<close> without arguments read the limits of \<open>plt.gca()\<close>.\<close>

definition plt_xlim :: "world \<Rightarrow> (real \<times> real) \<times> world" where
  "plt_xlim w = (let (a, w') = gca w in (xlim (axes_heap w' a), w'))"

definition plt_ylim :: "world \<Rightarrow> (real \<times> real) \<times> world" where
  "plt_ylim w = (let (a, w') = gca w in (ylim (axes_heap w' a), w'))"

text \<open>With arguments they set the limits of \<open>plt.gca()\<close>, which stops autoscaling of
  that axis.\<close>

definition plt_set_xlim :: "real \<Rightarrow> real \<Rightarrow> world \<Rightarrow> world" where
  "plt_set_xlim lo hi w =
     (let (a, w') = gca w
      in w'\<lparr>axes_heap := (axes_heap w')
               (a := (axes_heap w' a)\<lparr>xlim := (lo, hi), autoscalex_on := False\<rparr>)\<rparr>)"

definition plt_set_ylim :: "real \<Rightarrow> real \<Rightarrow> world \<Rightarrow> world" where
  "plt_set_ylim lo hi w =
     (let (a, w') = gca w
      in w'\<lparr>axes_heap := (axes_heap w')
               (a := (axes_heap w' a)\<lparr>ylim := (lo, hi), autoscaley_on := False\<rparr>)\<rparr>)"

text \<open>Drawing on a surface appends the artist and rescales the axes that still
  autoscale.\<close>

definition add_artist :: "lib \<Rightarrow> nat \<Rightarrow> artist \<Rightarrow> world \<Rightarrow> world" where
  "add_artist L a art w =
     (let A = axes_heap w a;
          arts = artists A @ [art];
          (xl, yl) = autoscale_view L arts;
          A' = A\<lparr>xlim := (if autoscalex_on A then xl else xlim A),
                 ylim := (if autoscaley_on A then yl else ylim A),
                 artists := arts\<rparr>
      in w\<lparr>axes_heap := (axes_heap w)(a := A')\<rparr>)"

definition ax_contour ::
  "lib \<Rightarrow> nat \<Rightarrow> array2 \<Rightarrow> array2 \<Rightarrow> array2 \<Rightarrow> string \<Rightarrow> real list \<Rightarrow> real \<Rightarrow> string list
     \<Rightarrow> world \<Rightarrow> world" where
  "ax_contour L a X Y Z colors levels alpha linestyles w =
     add_artist L a (Contour X Y Z colors levels alpha linestyles) w"

text \<open>\<open>plt.scatter\<close> draws on \<open>plt.gca()\<close>; a sequence of colour values must have one
  value per point.\<close>

definition plt_scatter ::
  "lib \<Rightarrow> array1 \<Rightarrow> array1 \<Rightarrow> color_arg \<Rightarrow> real \<Rightarrow> string option \<Rightarrow> real option
     \<Rightarrow> string option \<Rightarrow> world \<Rightarrow> (error + unit) \<times> world" where
  "plt_scatter L x y c s cmap linewidths edgecolors w =
     (let (a, w') = gca w
      in if length x \<noteq> length y then (Inl ValueError, w')
         else case c of
           CValues vs \<Rightarrow>
             (if length vs \<noteq> length x then (Inl ValueError, w')
              else (Inr (), add_artist L a (Scatter x y c s cmap linewidths edgecolors) w'))
         | CName n \<Rightarrow>
             (Inr (), add_artist L a (Scatter x y c s cmap linewidths edgecolors) w'))"

section \<open>The renderer\<close>

definition call_decision_function ::
  "nat \<Rightarrow> point list \<Rightarrow> world \<Rightarrow> (error + array1) \<times> world" where
  "call_decision_function clf pts w =
     (decision_function (clf_heap w clf) pts,
      w\<lparr>lib_calls := lib_calls w @ [DecisionFunction clf pts]\<rparr>)"

text \<open>The body of \<open>for j, yj in enumerate(y)\<close> run over what is left of the
  enumeration; an exception ends the loop with the state reached.\<close>

fun inner_loop ::
  "nat \<Rightarrow> nat \<Rightarrow> real \<Rightarrow> (nat \<times> real) list \<Rightarrow> array2 \<Rightarrow> world \<Rightarrow> (error + array2) \<times> world"
where
  "inner_loop clf i xi [] P w = (Inr P, w)"
| "inner_loop clf i xi ((j, yj) # rest) P w =
     (let point = [(xi, yj)]
      in case call_decision_function clf point w of
           (Inl e, w') \<Rightarrow> (Inl e, w')
         | (Inr r, w') \<Rightarrow>
             (case setitem2 P i j r of
                Inl e \<Rightarrow> (Inl e, w')
              | Inr P' \<Rightarrow> inner_loop clf i xi rest P' w'))"

fun outer_loop ::
  "nat \<Rightarrow> (nat \<times> real) list \<Rightarrow> array1 \<Rightarrow> array2 \<Rightarrow> world \<Rightarrow> (error + array2) \<times> world"
where
  "outer_loop clf [] y P w = (Inr P, w)"
| "outer_loop clf ((i, xi) # rest) y P w =
     (case inner_loop clf i xi (enumerate 0 y) P w of
        (Inl e, w') \<Rightarrow> (Inl e, w')
      | (Inr P', w') \<Rightarrow> outer_loop clf rest y P' w')"

definition plot_svc_decision_function ::
  "lib \<Rightarrow> nat \<Rightarrow> nat option \<Rightarrow> world \<Rightarrow> (error + unit) \<times> world" where
  "plot_svc_decision_function L clf ax w0 =
     (let (ax, w1) = (case ax of None \<Rightarrow> gca w0 | Some a \<Rightarrow> (a, w0));
          (xa, w2) = plt_xlim w1;
          (xb, w3) = plt_xlim w2;
          x = linspace (fst xa) (snd xb) 30;
          (ya, w4) = plt_ylim w3;
          (yb, w5) = plt_ylim w4;
          y = linspace (fst ya) (snd yb) 30;
          (Y, X) = meshgrid y x;
          P = zeros_like X
      in case outer_loop clf (enumerate 0 x) y P w5 of
           (Inl e, w6) \<Rightarrow> (Inl e, w6)
         | (Inr P', w6) \<Rightarrow>
             (Inr (), ax_contour L ax X Y P' ''k'' [-1, 0, 1] (1 / 2)
                        [''--'', ''-'', ''--''] w6))"

section \<open>The driver\<close>

definition svc_fit_new ::
  "lib \<Rightarrow> string \<Rightarrow> point list \<Rightarrow> int list \<Rightarrow> world \<Rightarrow> (error + nat) \<times> world" where
  "svc_fit_new L kern X y w =
     (let w' = w\<lparr>lib_calls := lib_calls w @ [Fit kern X y]\<rparr>
      in case svc_fit L kern X y of
           Inl e \<Rightarrow> (Inl e, w')
         | Inr c \<Rightarrow>
             (let r = next_clf w'
              in (Inr r, w'\<lparr>clf_heap := (clf_heap w')(r := c), next_clf := Suc r\<rparr>)))"

definition call_make_blobs ::
  "lib \<Rightarrow> nat \<Rightarrow> nat \<Rightarrow> int \<Rightarrow> real \<Rightarrow> world \<Rightarrow> (point list \<times> int list) \<times> world" where
  "call_make_blobs L n_samples centers random_state cluster_std w =
     (make_blobs L n_samples centers random_state cluster_std,
      w\<lparr>lib_calls := lib_calls w @ [MakeBlobs n_samples centers random_state cluster_std]\<rparr>)"

text \<open>The parameter \<open>N\<close> is \<open>None\<close> when the caller leaves it out.\<close>

definition plot_svm :: "lib \<Rightarrow> int option \<Rightarrow> world \<Rightarrow> (error + unit) \<times> world" where
  "plot_svm L N_arg w0 =
     (let N = (case N_arg of None \<Rightarrow> 10 | Some n \<Rightarrow> n);
          ((X, y), w1) = call_make_blobs L 200 2 0 (6 / 10) w0;
          X = slice_to X N;
          y = slice_to y N
      in case svc_fit_new L ''linear'' X y w1 of
           (Inl e, w2) \<Rightarrow> (Inl e, w2)
         | (Inr clf, w2) \<Rightarrow>
             (let w3 = plt_figure w2
              in case plt_scatter L (map fst X) (map snd X) (CValues y) 50 (Some ''spring'')
                        None None w3 of
                   (Inl e, w4) \<Rightarrow> (Inl e, w4)
                 | (Inr _, w4) \<Rightarrow>
                     (let w5 = plt_set_xlim (-1) 4 w4;
                          w6 = plt_set_ylim (-1) 6 w5;
                          (ax, w7) = gca w6
                      in case plot_svc_decision_function L clf (Some ax) w7 of
                           (Inl e, w8) \<Rightarrow> (Inl e, w8)
                         | (Inr _, w8) \<Rightarrow>
                             (let sv = support_vectors (clf_heap w8 clf)
                              in plt_scatter L (map fst sv) (map snd sv) (CName ''none'') 200
                                   None (Some 1) (Some ''k'') w8))))"

section \<open>Notions used to state the properties\<close>

text \<open>The surface the renderer draws on: the argument \<open>ax\<close>, or pyplot's current
  surface when the argument is \<open>None\<close>.\<close>

definition target_axes :: "nat option \<Rightarrow> world \<Rightarrow> nat" where
  "target_axes ax w = (case ax of None \<Rightarrow> fst (gca w) | Some a \<Rightarrow> a)"

text \<open>The extents of a surface, and the extents pyplot reports at a given moment.\<close>

definition extents :: "world \<Rightarrow> nat \<Rightarrow> (real \<times> real) \<times> (real \<times> real)" where
  "extents w a = (xlim (axes_heap w a), ylim (axes_heap w a))"

definition current_extents :: "world \<Rightarrow> (real \<times> real) \<times> (real \<times> real)" where
  "current_extents w = (fst (plt_xlim w), fst (plt_ylim w))"

text \<open>The samples along one axis for given extents, and the points at which and the
  order in which the double loop asks for scores.\<close>

definition samples :: "real \<times> real \<Rightarrow> array1" where
  "samples ext = linspace (fst ext) (snd ext) 30"

definition grid_calls :: "nat \<Rightarrow> array1 \<Rightarrow> array1 \<Rightarrow> call list" where
  "grid_calls clf x y =
     concat (map (\<lambda>xi. map (\<lambda>yj. DecisionFunction clf [(xi, yj)]) y) x)"

definition grid_scores :: "(point \<Rightarrow> real) \<Rightarrow> array1 \<Rightarrow> array1 \<Rightarrow> array2" where
  "grid_scores f x y = map (\<lambda>xi. map (\<lambda>yj. f (xi, yj)) y) x"

text \<open>The outcome of the renderer's double loop: the exception raised or the score
  grid \<open>P\<close>.\<close>

definition score_loop :: "nat \<Rightarrow> world \<Rightarrow> error + array2" where
  "score_loop clf w =
     (let x = samples (fst (current_extents w));
          y = samples (snd (current_extents w))
      in fst (outer_loop clf (enumerate 0 x) y (zeros_like (snd (meshgrid y x))) (snd (gca w))))"

text \<open>What the renderer passes to \<open>contour\<close> for given samples and scores.\<close>

definition margins :: "array1 \<Rightarrow> array1 \<Rightarrow> array2 \<Rightarrow> artist" where
  "margins x y P =
     Contour (snd (meshgrid y x)) (fst (meshgrid y x)) P ''k'' [-1, 0, 1] (1 / 2)
       [''--'', ''-'', ''--'']"

text \<open>The state in which the driver calls the renderer, when the fit has returned the
  classifier \<open>c\<close> for the points \<open>X\<close> and labels \<open>y\<close>: the classifier is stored at a new
  reference, and a new figure holds one new surface with the scatter of the points and
  the extents set by hand.\<close>

definition scene :: "lib \<Rightarrow> classifier \<Rightarrow> point list \<Rightarrow> int list \<Rightarrow> world \<Rightarrow> world" where
  "scene L c X y w =
     w\<lparr>clf_heap := (clf_heap w)(next_clf w := c),
       next_clf := Suc (next_clf w),
       axes_heap := (axes_heap w)(next_ax w :=
         \<lparr>xlim = (-1, 4), ylim = (-1, 6), autoscalex_on = False, autoscaley_on = False,
          artists = [Scatter (map fst X) (map snd X) (CValues y) 50 (Some ''spring'')
                       None None]\<rparr>),
       next_ax := Suc (next_ax w),
       figs := [next_ax w] # figs w,
       lib_calls := lib_calls w @ [MakeBlobs 200 2 0 (6 / 10), Fit ''linear'' X y]\<rparr>"

text \<open>The dataset the driver generates, and the arguments it is generated with.\<close>

definition dataset :: "lib \<Rightarrow> point list \<times> int list" where
  "dataset L = make_blobs L 200 2 0 (6 / 10)"

text \<open>A call that asks one classifier for the score of a single point.\<close>

definition single_call :: "nat \<Rightarrow> call \<Rightarrow> bool" where
  "single_call clf c = (case c of DecisionFunction k [p] \<Rightarrow> k = clf | _ \<Rightarrow> False)"

text \<open>The last thing drawn on a surface.\<close>

definition drawn :: "world \<Rightarrow> nat \<Rightarrow> artist" where
  "drawn w a = last (artists (axes_heap w a))"





text \<open>Every surface of every open figure has been allocated.\<close>

definition wf_world :: "world \<Rightarrow> bool" where
  "wf_world w = list_all (list_all (\<lambda>a. a < next_ax w)) (figs w)"

text \<open>The samples the renderer takes along each axis when it is called in a given
  state.\<close>

definition grid_x :: "world \<Rightarrow> array1" where
  "grid_x w = samples (fst (current_extents w))"

definition grid_y :: "world \<Rightarrow> array1" where
  "grid_y w = samples (snd (current_extents w))"

text \<open>What the driver relies on from \<open>make_blobs\<close>: as many points and labels as asked
  for, and labels that number the centers.\<close>

definition blobs_contract :: "lib \<Rightarrow> bool" where
  "blobs_contract L =
     (\<forall>n c s d. length (fst (make_blobs L n c s d)) = n \<and>
                length (snd (make_blobs L n c s d)) = n \<and>
                (0 < c \<longrightarrow>
                   list_all (\<lambda>l. 0 \<le> l \<and> l < int c) (snd (make_blobs L n c s d))))"

subsection \<open>Example objects\<close>

text \<open>A classifier with the linear score \<open>2x + 3y + 1\<close>, a library whose fit needs two
  points at least and returns that classifier, a state with nothing drawn yet, and a
  state with two figures in which the surface \<open>1\<close> of the older figure has the extents
  \<open>[-1, 4]\<close> and \<open>[-1, 6]\<close> while the current surface \<open>0\<close> has the default ones.\<close>

definition lin_clf :: classifier where
  "lin_clf =
     \<lparr>decision_function = (\<lambda>pts. Inr (map (\<lambda>(x, y). 2 * x + 3 * y + 1) pts)),
      support_vectors = [(0, 0), (1, 1)]\<rparr>"

definition toy_lib :: lib where
  "toy_lib =
     \<lparr>make_blobs = (\<lambda>n c s d. (map (\<lambda>i. (real i, real i)) [0..<n],
                               map (\<lambda>i. int (i mod c)) [0..<n])),
      svc_fit = (\<lambda>k X y. if length X < 2 then Inl ValueError else Inr lin_clf),
      autoscale_view = (\<lambda>arts. ((0, 1), (0, 1)))\<rparr>"

definition empty_world :: world where
  "empty_world =
     \<lparr>clf_heap = (\<lambda>r. lin_clf), next_clf = 1, axes_heap = (\<lambda>a. new_axes), next_ax = 0,
      figs = [], lib_calls = []\<rparr>"

definition two_axes_world :: world where
  "two_axes_world =
     \<lparr>clf_heap = (\<lambda>r. lin_clf), next_clf = 1,
      axes_heap = (\<lambda>a. if a = 1
         then \<lparr>xlim = (-1, 4), ylim = (-1, 6), autoscalex_on = False, autoscaley_on = False,
               artists = []\<rparr>
         else new_axes),
      next_ax = 2, figs = [[0], [1]], lib_calls = []\<rparr>"

text \<open>The score of \<open>lin_clf\<close> as a function of the point, and the state
  \<open>two_axes_world\<close> with the other figure current: the same classifiers and the same
  surfaces with the same extents, only the surface \<open>1\<close> is the current one.\<close>

definition lin_score :: "point \<Rightarrow> real" where
  "lin_score p = 2 * fst p + 3 * snd p + 1"

definition swapped_world :: world where
  "swapped_world = two_axes_world\<lparr>figs := [[1], [0]]\<rparr>"

section \<open>Sampling\<close>

lemma length_linspace: "length (linspace a b n) = n"
  by (simp add: linspace_def Let_def)

lemma linspace_nth:
  assumes "1 < n" "i < n"
  shows "linspace a b n ! i = a + real i * ((b - a) / real (n - 1))"
proof (cases "i = n - 1")
  case True
  have "a + real (n - 1) * ((b - a) / real (n - 1)) = b" using assms by simp
  with True assms show ?thesis by (simp add: linspace_def Let_def)
next
  case False
  with assms show ?thesis by (simp add: linspace_def Let_def add.commute)
qed

lemma linspace_first: "1 < n \<Longrightarrow> linspace a b n ! 0 = a"
  by (simp add: linspace_nth)

lemma linspace_last: "1 < n \<Longrightarrow> linspace a b n ! (n - 1) = b"
  by (simp add: linspace_def Let_def)

lemma linspace_step:
  assumes "Suc i < n"
  shows "linspace a b n ! Suc i - linspace a b n ! i = (b - a) / real (n - 1)"
proof -
  from assms have n: "1 < n" and i: "i < n" by simp_all
  have "(a + real (Suc i) * d) - (a + real i * d) = d" for d :: real
    by (simp add: algebra_simps)
  then show ?thesis
    unfolding linspace_nth [OF n assms] linspace_nth [OF n i] .
qed

lemma gca_idem: "gca w = (a, w') \<Longrightarrow> gca w' = (a, w')"
  by (auto simp: gca_def add_axes_def Let_def split: list.splits)

lemma gca_clf_heap: "clf_heap (snd (gca w)) = clf_heap w"
  by (simp add: gca_def add_axes_def Let_def split: list.splits)

lemma gca_lib_calls: "lib_calls (snd (gca w)) = lib_calls w"
  by (simp add: gca_def add_axes_def Let_def split: list.splits)

lemma gca_next_clf: "next_clf (snd (gca w)) = next_clf w"
  by (simp add: gca_def add_axes_def Let_def split: list.splits)

lemma inner_loop_total:
  assumes "\<forall>p. decision_function (clf_heap w clf) [p] = Inr [f p]"
    and "i < length P" and "length (P ! i) = j0 + length ys"
  shows "inner_loop clf i xi (enumerate j0 ys) P w =
           (Inr (P[i := take j0 (P ! i) @ map (\<lambda>yj. f (xi, yj)) ys]),
            w\<lparr>lib_calls := lib_calls w @ map (\<lambda>yj. DecisionFunction clf [(xi, yj)]) ys\<rparr>)"
  using assms
proof (induction ys arbitrary: j0 P w)
  case Nil
  then show ?case by simp
next
  case (Cons y ys)
  let ?w = "w\<lparr>lib_calls := lib_calls w @ [DecisionFunction clf [(xi, y)]]\<rparr>"
  let ?P = "P[i := (P ! i)[j0 := f (xi, y)]]"
  have step: "inner_loop clf i xi (enumerate j0 (y # ys)) P w =
                inner_loop clf i xi (enumerate (Suc j0) ys) ?P ?w"
    using Cons.prems by (simp add: call_decision_function_def setitem2_def)
  have "inner_loop clf i xi (enumerate (Suc j0) ys) ?P ?w =
          (Inr (?P[i := take (Suc j0) (?P ! i) @ map (\<lambda>yj. f (xi, yj)) ys]),
           ?w\<lparr>lib_calls := lib_calls ?w @ map (\<lambda>yj. DecisionFunction clf [(xi, yj)]) ys\<rparr>)"
    using Cons.prems by (intro Cons.IH) simp_all
  moreover have "take (Suc j0) (?P ! i) = take j0 (P ! i) @ [f (xi, y)]"
    using Cons.prems by (simp add: take_Suc_conv_app_nth)
  ultimately show ?case
    unfolding step by simp
qed


lemma outer_loop_total:
  assumes "\<forall>p. decision_function (clf_heap w clf) [p] = Inr [f p]"
    and "length P = i0 + length xs" and "\<forall>i. i0 \<le> i \<and> i < length P \<longrightarrow> length (P ! i) = length y"
  shows "outer_loop clf (enumerate i0 xs) y P w =
           (Inr (take i0 P @ map (\<lambda>xi. map (\<lambda>yj. f (xi, yj)) y) xs),
            w\<lparr>lib_calls := lib_calls w @
                 concat (map (\<lambda>xi. map (\<lambda>yj. DecisionFunction clf [(xi, yj)]) y) xs)\<rparr>)"
  using assms
proof (induction xs arbitrary: i0 P w)
  case Nil
  then show ?case by simp
next
  case (Cons x xs)
  let ?w = "w\<lparr>lib_calls := lib_calls w @ map (\<lambda>yj. DecisionFunction clf [(x, yj)]) y\<rparr>"
  let ?P = "P[i0 := map (\<lambda>yj. f (x, yj)) y]"
  have i0: "i0 < length P" and len: "length (P ! i0) = 0 + length y"
    using Cons.prems by simp_all
  have step: "outer_loop clf (enumerate i0 (x # xs)) y P w =
                outer_loop clf (enumerate (Suc i0) xs) y ?P ?w"
    using inner_loop_total [OF Cons.prems(1) i0 len, of x] by simp
  have "outer_loop clf (enumerate (Suc i0) xs) y ?P ?w =
          (Inr (take (Suc i0) ?P @ map (\<lambda>xi. map (\<lambda>yj. f (xi, yj)) y) xs),
           ?w\<lparr>lib_calls := lib_calls ?w @
                 concat (map (\<lambda>xi. map (\<lambda>yj. DecisionFunction clf [(xi, yj)]) y) xs)\<rparr>)"
    using Cons.prems by (intro Cons.IH) (simp_all add: nth_list_update)
  moreover have "take (Suc i0) ?P = take i0 P @ [map (\<lambda>yj. f (x, yj)) y]"
    using i0 by (simp add: take_Suc_conv_app_nth)
  ultimately show ?case
    unfolding step by simp
qed

section \<open>The renderer on a classifier that scores every point\<close>

lemma gca_fst_snd: "gca (snd (gca w)) = gca w"
  using gca_idem [of w] by (cases "gca w") simp

lemma plt_xlim_world: "snd (plt_xlim w) = snd (gca w)"
  by (simp add: plt_xlim_def split_beta)

lemma plt_ylim_world: "snd (plt_ylim w) = snd (gca w)"
  by (simp add: plt_ylim_def split_beta)

lemma plt_xlim_after_gca: "plt_xlim (snd (gca w)) = plt_xlim w"
  by (simp add: plt_xlim_def gca_fst_snd)

lemma plt_ylim_after_gca: "plt_ylim (snd (gca w)) = plt_ylim w"
  by (simp add: plt_ylim_def gca_fst_snd)

lemma meshgrid_shape:
  "length (snd (meshgrid y x)) = length x"
  "length (fst (meshgrid y x)) = length x"
  "i < length x \<Longrightarrow> length (snd (meshgrid y x) ! i) = length y"
  "i < length x \<Longrightarrow> length (fst (meshgrid y x) ! i) = length y"
  by (simp_all add: meshgrid_def)

lemma meshgrid_nth:
  "i < length x \<Longrightarrow> j < length y \<Longrightarrow> snd (meshgrid y x) ! i ! j = x ! i"
  "i < length x \<Longrightarrow> j < length y \<Longrightarrow> fst (meshgrid y x) ! i ! j = y ! j"
  by (simp_all add: meshgrid_def)

lemma outer_loop_zeros:
  assumes "\<forall>p. decision_function (clf_heap w clf) [p] = Inr [f p]"
  shows "outer_loop clf (enumerate 0 x) y (zeros_like (snd (meshgrid y x))) w =
           (Inr (grid_scores f x y), w\<lparr>lib_calls := lib_calls w @ grid_calls clf x y\<rparr>)"
  using outer_loop_total [OF assms, of "zeros_like (snd (meshgrid y x))" 0 x y]
  by (simp add: zeros_like_def meshgrid_def grid_scores_def grid_calls_def)

lemma renderer_unfold:
  "plot_svc_decision_function L clf ax w =
     (let a = target_axes ax w;
          w' = snd (gca w);
          x = samples (fst (current_extents w));
          y = samples (snd (current_extents w))
      in case outer_loop clf (enumerate 0 x) y (zeros_like (snd (meshgrid y x))) w' of
           (Inl e, w'') \<Rightarrow> (Inl e, w'')
         | (Inr P, w'') \<Rightarrow> (Inr (), add_artist L a (margins x y P) w''))"
proof (cases ax)
  case None
  show ?thesis
    unfolding plot_svc_decision_function_def None
    by (simp add: split_beta Let_def plt_xlim_world plt_ylim_world gca_fst_snd
        plt_xlim_after_gca plt_ylim_after_gca target_axes_def current_extents_def
        samples_def margins_def ax_contour_def cong: sum.case_cong)
next
  case (Some a)
  show ?thesis
    unfolding plot_svc_decision_function_def Some
    by (simp add: split_beta Let_def plt_xlim_world plt_ylim_world gca_fst_snd
        plt_xlim_after_gca plt_ylim_after_gca target_axes_def current_extents_def
        samples_def margins_def ax_contour_def cong: sum.case_cong)
qed

lemma renderer_total:
  assumes "\<forall>p. decision_function (clf_heap w clf) [p] = Inr [f p]"
  shows "plot_svc_decision_function L clf ax w =
           (Inr (),
            add_artist L (target_axes ax w)
              (margins (samples (fst (current_extents w))) (samples (snd (current_extents w)))
                 (grid_scores f (samples (fst (current_extents w)))
                    (samples (snd (current_extents w)))))
              ((snd (gca w))\<lparr>lib_calls := lib_calls w @
                  grid_calls clf (samples (fst (current_extents w)))
                    (samples (snd (current_extents w)))\<rparr>))"
proof -
  have "\<forall>p. decision_function (clf_heap (snd (gca w)) clf) [p] = Inr [f p]"
    using assms by (simp add: gca_clf_heap)
  from outer_loop_zeros [OF this] show ?thesis
    by (simp add: renderer_unfold Let_def gca_lib_calls)
qed

section \<open>What the renderer may change\<close>

lemma inner_loop_frame:
  "\<exists>cs. snd (inner_loop clf i xi js P w) = w\<lparr>lib_calls := lib_calls w @ cs\<rparr> \<and>
        list_all (single_call clf) cs"
proof (induction js arbitrary: P w)
  case Nil
  have "w = w\<lparr>lib_calls := lib_calls w @ []\<rparr>" by simp
  then have "snd (inner_loop clf i xi [] P w) = w\<lparr>lib_calls := lib_calls w @ []\<rparr> \<and>
      list_all (single_call clf) []" by simp
  then show ?case by blast
next
  case (Cons p js)
  obtain j yj where p: "p = (j, yj)" by (cases p)
  let ?c = "DecisionFunction clf [(xi, yj)]"
  let ?w = "w\<lparr>lib_calls := lib_calls w @ [?c]\<rparr>"
  have single: "list_all (single_call clf) [?c]"
    by (simp add: single_call_def)
  show ?case
  proof (cases "decision_function (clf_heap w clf) [(xi, yj)]")
    case (Inl e)
    then have "snd (inner_loop clf i xi (p # js) P w) = ?w"
      by (simp add: p call_decision_function_def)
    with single show ?thesis by blast
  next
    case (Inr r)
    show ?thesis
    proof (cases "setitem2 P i j r")
      case (Inl e)
      with Inr have "snd (inner_loop clf i xi (p # js) P w) = ?w"
        by (simp add: p call_decision_function_def)
      with single show ?thesis by blast
    next
      case (Inr P')
      with \<open>decision_function (clf_heap w clf) [(xi, yj)] = Inr r\<close>
      have eq: "inner_loop clf i xi (p # js) P w = inner_loop clf i xi js P' ?w"
        by (simp add: p call_decision_function_def)
      from Cons.IH [of P' ?w] obtain cs where
        cs: "snd (inner_loop clf i xi js P' ?w) = ?w\<lparr>lib_calls := lib_calls ?w @ cs\<rparr>"
        and all: "list_all (single_call clf) cs" by blast
      from cs have "snd (inner_loop clf i xi (p # js) P w) =
          w\<lparr>lib_calls := lib_calls w @ (?c # cs)\<rparr>"
        by (simp add: eq)
      moreover from all single have "list_all (single_call clf) (?c # cs)" by simp
      ultimately show ?thesis by blast
    qed
  qed
qed

lemma outer_loop_frame:
  "\<exists>cs. snd (outer_loop clf is y P w) = w\<lparr>lib_calls := lib_calls w @ cs\<rparr> \<and>
        list_all (single_call clf) cs"
proof (induction "is" arbitrary: P w)
  case Nil
  have "w = w\<lparr>lib_calls := lib_calls w @ []\<rparr>" by simp
  then have "snd (outer_loop clf [] y P w) = w\<lparr>lib_calls := lib_calls w @ []\<rparr> \<and>
      list_all (single_call clf) []" by simp
  then show ?case by blast
next
  case (Cons p "is")
  obtain i xi where p: "p = (i, xi)" by (cases p)
  obtain r w1 where in1: "inner_loop clf i xi (enumerate 0 y) P w = (r, w1)"
    by (cases "inner_loop clf i xi (enumerate 0 y) P w")
  from inner_loop_frame [of clf i xi "enumerate 0 y" P w] in1
  obtain cs where w1: "w1 = w\<lparr>lib_calls := lib_calls w @ cs\<rparr>"
    and cs: "list_all (single_call clf) cs" by auto
  show ?case
  proof (cases r)
    case (Inl e)
    with in1 have "snd (outer_loop clf (p # is) y P w) = w1" by (simp add: p)
    with w1 cs show ?thesis by blast
  next
    case (Inr P')
    with in1 have eq: "outer_loop clf (p # is) y P w = outer_loop clf is y P' w1"
      by (simp add: p)
    from Cons.IH [of P' w1] obtain ds where
      ds: "snd (outer_loop clf is y P' w1) = w1\<lparr>lib_calls := lib_calls w1 @ ds\<rparr>"
      and all: "list_all (single_call clf) ds" by blast
    from ds have "snd (outer_loop clf (p # is) y P w) = w\<lparr>lib_calls := lib_calls w @ (cs @ ds)\<rparr>"
      by (simp add: eq w1)
    moreover from cs all have "list_all (single_call clf) (cs @ ds)" by simp
    ultimately show ?thesis by blast
  qed
qed

lemma renderer_score_loop:
  "plot_svc_decision_function L clf ax w =
     (let x = samples (fst (current_extents w));
          y = samples (snd (current_extents w));
          w' = snd (outer_loop clf (enumerate 0 x) y (zeros_like (snd (meshgrid y x)))
                 (snd (gca w)))
      in case score_loop clf w of
           Inl e \<Rightarrow> (Inl e, w')
         | Inr P \<Rightarrow> (Inr (), add_artist L (target_axes ax w) (margins x y P) w'))"
  by (simp add: renderer_unfold score_loop_def Let_def split_beta split: sum.splits)

lemma renderer_cases:
  "\<exists>cs. list_all (single_call clf) cs \<and>
     (case score_loop clf w of
        Inl e \<Rightarrow>
          plot_svc_decision_function L clf ax w =
            (Inl e, (snd (gca w))\<lparr>lib_calls := lib_calls w @ cs\<rparr>)
      | Inr P \<Rightarrow>
          plot_svc_decision_function L clf ax w =
            (Inr (),
             add_artist L (target_axes ax w)
               (margins (samples (fst (current_extents w))) (samples (snd (current_extents w))) P)
               ((snd (gca w))\<lparr>lib_calls := lib_calls w @ cs\<rparr>)))"
proof -
  let ?x = "samples (fst (current_extents w))" and ?y = "samples (snd (current_extents w))"
  from outer_loop_frame [of clf "enumerate 0 ?x" ?y "zeros_like (snd (meshgrid ?y ?x))" "snd (gca w)"]
  obtain cs where
    w1: "snd (outer_loop clf (enumerate 0 ?x) ?y (zeros_like (snd (meshgrid ?y ?x))) (snd (gca w)))
           = (snd (gca w))\<lparr>lib_calls := lib_calls w @ cs\<rparr>"
    and cs: "list_all (single_call clf) cs"
    by (auto simp: gca_lib_calls)
  have "case score_loop clf w of
        Inl e \<Rightarrow>
          plot_svc_decision_function L clf ax w =
            (Inl e, (snd (gca w))\<lparr>lib_calls := lib_calls w @ cs\<rparr>)
      | Inr P \<Rightarrow>
          plot_svc_decision_function L clf ax w =
            (Inr (),
             add_artist L (target_axes ax w) (margins ?x ?y P)
               ((snd (gca w))\<lparr>lib_calls := lib_calls w @ cs\<rparr>))"
    by (simp add: renderer_score_loop Let_def w1 split: sum.splits)
  with cs show ?thesis by blast
qed

lemma add_artist_clf_heap: "clf_heap (add_artist L a art w) = clf_heap w"
  by (simp add: add_artist_def Let_def split_beta)

lemma add_artist_lib_calls: "lib_calls (add_artist L a art w) = lib_calls w"
  by (simp add: add_artist_def Let_def split_beta)

lemma add_artist_figs: "figs (add_artist L a art w) = figs w"
  by (simp add: add_artist_def Let_def split_beta)

lemma add_artist_drawn: "drawn (add_artist L a art w) a = art"
  by (simp add: add_artist_def Let_def split_beta drawn_def)


lemma add_artist_other: "b \<noteq> a \<Longrightarrow> axes_heap (add_artist L a art w) b = axes_heap w b"
  by (simp add: add_artist_def Let_def split_beta)

lemma add_artist_fixed:
  assumes "\<not> autoscalex_on (axes_heap w a)" and "\<not> autoscaley_on (axes_heap w a)"
  shows "add_artist L a art w =
           w\<lparr>axes_heap := (axes_heap w)
               (a := (axes_heap w a)\<lparr>artists := artists (axes_heap w a) @ [art]\<rparr>)\<rparr>"
  using assms by (simp add: add_artist_def Let_def split_beta)

lemma renderer_clf_heap: "clf_heap (snd (plot_svc_decision_function L clf ax w)) = clf_heap w"
  using renderer_cases [where clf = clf and w = w and L = L and ax = ax]
  by (cases "score_loop clf w") (auto simp: add_artist_clf_heap gca_clf_heap)

section \<open>The scores depend on the decision function and the extents only\<close>

lemma inner_loop_fst_cong:
  assumes "decision_function (clf_heap w clf) = decision_function (clf_heap w' clf')"
  shows "fst (inner_loop clf i xi js P w) = fst (inner_loop clf' i xi js P w')"
  using assms
proof (induction js arbitrary: P w w')
  case Nil
  then show ?case by simp
next
  case (Cons p js)
  obtain j yj where p: "p = (j, yj)" by (cases p)
  let ?w = "w\<lparr>lib_calls := lib_calls w @ [DecisionFunction clf [(xi, yj)]]\<rparr>"
  let ?w' = "w'\<lparr>lib_calls := lib_calls w' @ [DecisionFunction clf' [(xi, yj)]]\<rparr>"
  have df: "decision_function (clf_heap w' clf') [(xi, yj)] =
              decision_function (clf_heap w clf) [(xi, yj)]"
    using Cons.prems by simp
  have IH: "fst (inner_loop clf i xi js P' ?w) = fst (inner_loop clf' i xi js P' ?w')" for P'
    using Cons.prems by (intro Cons.IH) simp
  show ?case
  proof (cases "decision_function (clf_heap w clf) [(xi, yj)]")
    case (Inl e)
    with df show ?thesis by (simp add: p call_decision_function_def)
  next
    case (Inr r)
    show ?thesis
    proof (cases "setitem2 P i j r")
      case (Inl e)
      with Inr df show ?thesis by (simp add: p call_decision_function_def)
    next
      case (Inr P')
      with \<open>decision_function (clf_heap w clf) [(xi, yj)] = Inr r\<close> df IH [of P']
      show ?thesis by (simp add: p call_decision_function_def)
    qed
  qed
qed

lemma inner_loop_clf_heap: "clf_heap (snd (inner_loop clf i xi js P w)) = clf_heap w"
  using inner_loop_frame [of clf i xi js P w] by auto

lemma outer_loop_fst_cong:
  assumes "decision_function (clf_heap w clf) = decision_function (clf_heap w' clf')"
  shows "fst (outer_loop clf is y P w) = fst (outer_loop clf' is y P w')"
  using assms
proof (induction "is" arbitrary: P w w')
  case Nil
  then show ?case by simp
next
  case (Cons p "is")
  obtain i xi where p: "p = (i, xi)" by (cases p)
  let ?r = "inner_loop clf i xi (enumerate 0 y) P w"
  let ?r' = "inner_loop clf' i xi (enumerate 0 y) P w'"
  have fst_eq: "fst ?r = fst ?r'"
    using Cons.prems by (rule inner_loop_fst_cong)
  have "decision_function (clf_heap (snd ?r) clf) = decision_function (clf_heap (snd ?r') clf')"
    using Cons.prems by (simp add: inner_loop_clf_heap)
  then have IH: "fst (outer_loop clf is y P' (snd ?r)) = fst (outer_loop clf' is y P' (snd ?r'))"
    for P' by (rule Cons.IH)
  show ?case
  proof (cases "fst ?r")
    case (Inl e)
    with fst_eq have "fst ?r' = Inl e" by simp
    with Inl show ?thesis by (simp add: p split_beta)
  next
    case (Inr P')
    with fst_eq have "fst ?r' = Inr P'" by simp
    with Inr IH [of P'] show ?thesis by (simp add: p split_beta)
  qed
qed

lemma score_loop_cong:
  assumes "decision_function (clf_heap w clf) = decision_function (clf_heap w' clf')"
    and "current_extents w = current_extents w'"
  shows "score_loop clf w = score_loop clf' w'"
proof -
  have "decision_function (clf_heap (snd (gca w)) clf) =
          decision_function (clf_heap (snd (gca w')) clf')"
    using assms(1) by (simp add: gca_clf_heap)
  from outer_loop_fst_cong [OF this] show ?thesis
    by (simp add: score_loop_def assms(2) Let_def)
qed

lemma score_loop_total:
  assumes "\<forall>p. decision_function (clf_heap w clf) [p] = Inr [f p]"
  shows "score_loop clf w =
           Inr (grid_scores f (samples (fst (current_extents w)))
                  (samples (snd (current_extents w))))"
proof -
  have "\<forall>p. decision_function (clf_heap (snd (gca w)) clf) [p] = Inr [f p]"
    using assms by (simp add: gca_clf_heap)
  from outer_loop_zeros [OF this] show ?thesis
    by (simp add: score_loop_def Let_def)
qed

section \<open>The driver up to the call of the renderer\<close>

lemma plot_svm_fit_error:
  assumes "svc_fit L ''linear'' (slice_to (fst (dataset L)) N) (slice_to (snd (dataset L)) N) = Inl e"
  shows "plot_svm L (Some N) w =
           (Inl e, w\<lparr>lib_calls := lib_calls w @
              [MakeBlobs 200 2 0 (6 / 10),
               Fit ''linear'' (slice_to (fst (dataset L)) N) (slice_to (snd (dataset L)) N)]\<rparr>)"
  using assms
  by (simp add: plot_svm_def call_make_blobs_def svc_fit_new_def dataset_def split_beta Let_def)

lemma gca_empty_figure:
  "figs w = [] # fs \<Longrightarrow>
   gca w = (next_ax w, w\<lparr>axes_heap := (axes_heap w)(next_ax w := new_axes),
                          next_ax := Suc (next_ax w), figs := [next_ax w] # fs\<rparr>)"
  by (simp add: gca_def add_axes_def Let_def)

lemma gca_current: "figs w = (a # as) # fs \<Longrightarrow> gca w = (a, w)"
  by (simp add: gca_def)

lemma plot_svm_to_renderer:
  assumes fit: "svc_fit L ''linear'' X y = Inr c"
    and X: "X = slice_to (fst (dataset L)) N" and y: "y = slice_to (snd (dataset L)) N"
    and len: "length y = length X"
  shows "plot_svm L (Some N) w =
           (case plot_svc_decision_function L (next_clf w) (Some (next_ax w)) (scene L c X y w) of
              (Inl e, w') \<Rightarrow> (Inl e, w')
            | (Inr u, w') \<Rightarrow>
                plt_scatter L (map fst (support_vectors (clf_heap w' (next_clf w))))
                  (map snd (support_vectors (clf_heap w' (next_clf w)))) (CName ''none'') 200
                  None (Some 1) (Some ''k'') w')"
proof -
  let ?w1 = "w\<lparr>lib_calls := lib_calls w @ [MakeBlobs 200 2 0 (6 / 10)]\<rparr>"
  let ?w2 = "w\<lparr>lib_calls := lib_calls w @ [MakeBlobs 200 2 0 (6 / 10), Fit ''linear'' X y],
               clf_heap := (clf_heap w)(next_clf w := c), next_clf := Suc (next_clf w)\<rparr>"
  let ?sc = "Scatter (map fst X) (map snd X) (CValues y) 50 (Some ''spring'') None None"
  have fitnew: "svc_fit_new L ''linear'' X y ?w1 = (Inr (next_clf w), ?w2)"
    using fit by (simp add: svc_fit_new_def Let_def)
  let ?w3g = "?w2\<lparr>axes_heap := (axes_heap w)(next_ax w := new_axes),
                   next_ax := Suc (next_ax w), figs := [next_ax w] # figs w\<rparr>"
  have g3: "gca (plt_figure ?w2) = (next_ax w, ?w3g)"
    by (subst gca_empty_figure [where fs = "figs w"]) (simp_all add: plt_figure_def)
  let ?w4 = "add_artist L (next_ax w) ?sc ?w3g"
  have sc: "plt_scatter L (map fst X) (map snd X) (CValues y) 50 (Some ''spring'') None None
              (plt_figure ?w2) = (Inr (), ?w4)"
    unfolding plt_scatter_def g3 using len by simp
  have figs4: "figs ?w4 = [next_ax w] # figs w"
    by (simp add: add_artist_def Let_def split_beta)
  have g4: "gca ?w4 = (next_ax w, ?w4)"
    using figs4 by (rule gca_current)
  let ?w5 = "plt_set_xlim (-1) 4 ?w4"
  have figs5: "figs ?w5 = [next_ax w] # figs w"
    unfolding plt_set_xlim_def g4 using figs4 by simp
  have g5: "gca ?w5 = (next_ax w, ?w5)"
    using figs5 by (rule gca_current)
  let ?w6 = "plt_set_ylim (-1) 6 ?w5"
  have figs6: "figs ?w6 = [next_ax w] # figs w"
    unfolding plt_set_ylim_def g5 using figs5 by simp
  have g6: "gca ?w6 = (next_ax w, ?w6)"
    using figs6 by (rule gca_current)
  have w6: "?w6 = scene L c X y w"
    unfolding plt_set_ylim_def g5 unfolding plt_set_xlim_def g4
    by (simp add: add_artist_def Let_def split_beta scene_def new_axes_def)
  have blobs: "call_make_blobs L 200 2 0 (6 / 10) w = ((fst (dataset L), snd (dataset L)), ?w1)"
    by (simp add: call_make_blobs_def dataset_def)
  have g7: "gca (scene L c X y w) = (next_ax w, scene L c X y w)"
    using g6 unfolding w6 .
  show ?thesis
    unfolding plot_svm_def option.case Let_def blobs prod.case X [symmetric] y [symmetric]
      fitnew sum.case sc w6 g7 ..
qed

section \<open>The outcomes of the driver\<close>

lemma plot_svm_default: "plot_svm L None w = plot_svm L (Some 10) w"
  by (simp add: plot_svm_def)

lemma scene_facts:
  "gca (scene L c X y w) = (next_ax w, scene L c X y w)"
  "clf_heap (scene L c X y w) (next_clf w) = c"
  "extents (scene L c X y w) (next_ax w) = ((-1, 4), (-1, 6))"
  "current_extents (scene L c X y w) = ((-1, 4), (-1, 6))"
  "figs (scene L c X y w) = [next_ax w] # figs w"
  "lib_calls (scene L c X y w) =
     lib_calls w @ [MakeBlobs 200 2 0 (6 / 10), Fit ''linear'' X y]"
proof -
  show g: "gca (scene L c X y w) = (next_ax w, scene L c X y w)"
    by (rule gca_current [where as = "[]" and fs = "figs w"]) (simp add: scene_def)
  show "clf_heap (scene L c X y w) (next_clf w) = c"
    by (simp add: scene_def)
  show "extents (scene L c X y w) (next_ax w) = ((-1, 4), (-1, 6))"
    by (simp add: scene_def extents_def)
  show "current_extents (scene L c X y w) = ((-1, 4), (-1, 6))"
    unfolding current_extents_def plt_xlim_def plt_ylim_def g
    by (simp add: scene_def)
  show "figs (scene L c X y w) = [next_ax w] # figs w"
    by (simp add: scene_def)
  show "lib_calls (scene L c X y w) =
     lib_calls w @ [MakeBlobs 200 2 0 (6 / 10), Fit ''linear'' X y]"
    by (simp add: scene_def)
qed

lemma scene_fixed:
  "\<not> autoscalex_on (axes_heap (scene L c X y w) (next_ax w))"
  "\<not> autoscaley_on (axes_heap (scene L c X y w) (next_ax w))"
  by (simp_all add: scene_def)

lemma renderer_Inl:
  assumes "score_loop clf w = Inl e"
  shows "\<exists>cs. list_all (single_call clf) cs \<and>
     plot_svc_decision_function L clf ax w =
       (Inl e, (snd (gca w))\<lparr>lib_calls := lib_calls w @ cs\<rparr>)"
  using renderer_cases [where clf = clf and w = w and L = L and ax = ax] assms by simp

lemma renderer_Inr:
  assumes "score_loop clf w = Inr P"
  shows "\<exists>cs. list_all (single_call clf) cs \<and>
     plot_svc_decision_function L clf ax w =
       (Inr (),
        add_artist L (target_axes ax w)
          (margins (samples (fst (current_extents w))) (samples (snd (current_extents w))) P)
          ((snd (gca w))\<lparr>lib_calls := lib_calls w @ cs\<rparr>))"
  using renderer_cases [where clf = clf and w = w and L = L and ax = ax] assms by simp

lemma plot_svm_Inl:
  assumes fit: "svc_fit L ''linear'' X y = Inr c"
    and X: "X = slice_to (fst (dataset L)) N" and y: "y = slice_to (snd (dataset L)) N"
    and len: "length y = length X"
    and loop: "score_loop (next_clf w) (scene L c X y w) = Inl e"
  shows "\<exists>cs. list_all (single_call (next_clf w)) cs \<and>
     plot_svm L (Some N) w =
       (Inl e, (scene L c X y w)\<lparr>lib_calls := lib_calls (scene L c X y w) @ cs\<rparr>)"
proof -
  let ?s = "scene L c X y w" and ?a = "next_ax w" and ?r = "next_clf w"
  from renderer_Inl [OF loop, of L "Some ?a"]
  obtain cs where cs: "list_all (single_call ?r) cs"
    and rc: "plot_svc_decision_function L ?r (Some ?a) ?s =
            (Inl e, ?s\<lparr>lib_calls := lib_calls ?s @ cs\<rparr>)"
    by (auto simp: scene_facts)
  from rc have "plot_svm L (Some N) w = (Inl e, ?s\<lparr>lib_calls := lib_calls ?s @ cs\<rparr>)"
    by (simp add: plot_svm_to_renderer [OF fit X y len])
  with cs show ?thesis by blast
qed

lemma plot_svm_Inr:
  assumes fit: "svc_fit L ''linear'' X y = Inr c"
    and X: "X = slice_to (fst (dataset L)) N" and y: "y = slice_to (snd (dataset L)) N"
    and len: "length y = length X"
    and loop: "score_loop (next_clf w) (scene L c X y w) = Inr P"
  shows "\<exists>cs. list_all (single_call (next_clf w)) cs \<and>
     plot_svm L (Some N) w =
       (Inr (),
        (scene L c X y w)
          \<lparr>axes_heap := (axes_heap (scene L c X y w))(next_ax w :=
             (axes_heap (scene L c X y w) (next_ax w))
               \<lparr>artists := artists (axes_heap (scene L c X y w) (next_ax w)) @
                  [margins (samples (-1, 4)) (samples (-1, 6)) P,
                   Scatter (map fst (support_vectors c)) (map snd (support_vectors c))
                     (CName ''none'') 200 None (Some 1) (Some ''k'')]\<rparr>),
           lib_calls := lib_calls (scene L c X y w) @ cs\<rparr>)"
proof -
  let ?s = "scene L c X y w" and ?a = "next_ax w" and ?r = "next_clf w"
  let ?m = "margins (samples (-1, 4)) (samples (-1, 6)) P"
  from renderer_Inr [OF loop, of L "Some ?a"]
  obtain cs where cs: "list_all (single_call ?r) cs"
    and r: "plot_svc_decision_function L ?r (Some ?a) ?s =
            (Inr (), add_artist L ?a ?m (?s\<lparr>lib_calls := lib_calls ?s @ cs\<rparr>))"
    by (auto simp: scene_facts target_axes_def)
  let ?s' = "?s\<lparr>lib_calls := lib_calls ?s @ cs\<rparr>"
  let ?w8 = "add_artist L ?a ?m ?s'"
  have w8: "?w8 = ?s'\<lparr>axes_heap := (axes_heap ?s')
             (?a := (axes_heap ?s' ?a)\<lparr>artists := artists (axes_heap ?s' ?a) @ [?m]\<rparr>)\<rparr>"
    by (rule add_artist_fixed) (simp_all add: scene_fixed)
  have g8: "gca ?w8 = (?a, ?w8)"
    by (rule gca_current [where as = "[]" and fs = "figs w"])
      (simp add: add_artist_figs scene_facts)
  have c8: "clf_heap ?w8 ?r = c"
    by (simp add: add_artist_clf_heap scene_facts)
  let ?sv = "Scatter (map fst (support_vectors c)) (map snd (support_vectors c))
                        (CName ''none'') 200 None (Some 1) (Some ''k'')"
  have "plt_scatter L (map fst (support_vectors c)) (map snd (support_vectors c))
          (CName ''none'') 200 None (Some 1) (Some ''k'') ?w8 = (Inr (), add_artist L ?a ?sv ?w8)"
    unfolding plt_scatter_def g8 by simp
  moreover have "add_artist L ?a ?sv ?w8 =
      ?w8\<lparr>axes_heap := (axes_heap ?w8)
             (?a := (axes_heap ?w8 ?a)\<lparr>artists := artists (axes_heap ?w8 ?a) @ [?sv]\<rparr>)\<rparr>"
    by (rule add_artist_fixed) (simp_all add: add_artist_def Let_def split_beta scene_fixed)
  ultimately have "plt_scatter L (map fst (support_vectors c)) (map snd (support_vectors c))
          (CName ''none'') 200 None (Some 1) (Some ''k'') ?w8 =
       (Inr (), ?s\<lparr>axes_heap := (axes_heap ?s)(?a :=
                (axes_heap ?s ?a)\<lparr>artists := artists (axes_heap ?s ?a) @ [?m, ?sv]\<rparr>),
              lib_calls := lib_calls ?s @ cs\<rparr>)"
    by (simp add: w8)
  with r c8 have "plot_svm L (Some N) w =
       (Inr (), ?s\<lparr>axes_heap := (axes_heap ?s)(?a :=
                (axes_heap ?s ?a)\<lparr>artists := artists (axes_heap ?s ?a) @ [?m, ?sv]\<rparr>),
              lib_calls := lib_calls ?s @ cs\<rparr>)"
    by (simp add: plot_svm_to_renderer [OF fit X y len])
  with cs show ?thesis by blast
qed

lemma plot_svm_scatter_error:
  assumes fit: "svc_fit L ''linear'' X y = Inr c"
    and X: "X = slice_to (fst (dataset L)) N" and y: "y = slice_to (snd (dataset L)) N"
    and len: "length y \<noteq> length X"
  shows "plot_svm L (Some N) w =
     (Inl ValueError,
      w\<lparr>clf_heap := (clf_heap w)(next_clf w := c),
        next_clf := Suc (next_clf w),
        axes_heap := (axes_heap w)(next_ax w := new_axes),
        next_ax := Suc (next_ax w),
        figs := [next_ax w] # figs w,
        lib_calls := lib_calls w @ [MakeBlobs 200 2 0 (6 / 10), Fit ''linear'' X y]\<rparr>)"
proof -
  let ?w1 = "w\<lparr>lib_calls := lib_calls w @ [MakeBlobs 200 2 0 (6 / 10)]\<rparr>"
  let ?w2 = "w\<lparr>lib_calls := lib_calls w @ [MakeBlobs 200 2 0 (6 / 10), Fit ''linear'' X y],
               clf_heap := (clf_heap w)(next_clf w := c), next_clf := Suc (next_clf w)\<rparr>"
  have fitnew: "svc_fit_new L ''linear'' X y ?w1 = (Inr (next_clf w), ?w2)"
    using fit by (simp add: svc_fit_new_def Let_def)
  let ?w3g = "?w2\<lparr>axes_heap := (axes_heap w)(next_ax w := new_axes),
                   next_ax := Suc (next_ax w), figs := [next_ax w] # figs w\<rparr>"
  have g3: "gca (plt_figure ?w2) = (next_ax w, ?w3g)"
    by (subst gca_empty_figure [where fs = "figs w"]) (simp_all add: plt_figure_def)
  have sc: "plt_scatter L (map fst X) (map snd X) (CValues y) 50 (Some ''spring'') None None
              (plt_figure ?w2) = (Inl ValueError, ?w3g)"
    unfolding plt_scatter_def g3 using len by simp
  have blobs: "call_make_blobs L 200 2 0 (6 / 10) w = ((fst (dataset L), snd (dataset L)), ?w1)"
    by (simp add: call_make_blobs_def dataset_def)
  have "plot_svm L (Some N) w = (Inl ValueError, ?w3g)"
    unfolding plot_svm_def option.case Let_def blobs prod.case X [symmetric] y [symmetric]
      fitnew sum.case sc ..
  then show ?thesis by simp
qed

section \<open>The grid and the example objects\<close>

lemma length_samples: "length (samples ext) = 30"
  by (simp add: samples_def length_linspace)

lemma samples_nth: "i < 30 \<Longrightarrow> samples ext ! i = fst ext + real i * ((snd ext - fst ext) / 29)"
  by (simp add: samples_def linspace_nth)

lemma samples_first: "samples ext ! 0 = fst ext"
  by (simp add: samples_nth)

lemma samples_last: "samples ext ! 29 = snd ext"
  using linspace_last [of 30 "fst ext" "snd ext"] by (simp add: samples_def)

lemma length_grid_calls: "length (grid_calls clf x y) = length x * length y"
  by (induction x) (simp_all add: grid_calls_def)

lemma grid_calls_nth:
  assumes "i < length x" and "j < length y"
  shows "grid_calls clf x y ! (length y * i + j) = DecisionFunction clf [(x ! i, y ! j)]"
  using assms(1)
proof (induction x arbitrary: i)
  case Nil
  then show ?case by simp
next
  case (Cons a x)
  show ?case
  proof (cases i)
    case 0
    with assms(2) show ?thesis by (simp add: grid_calls_def nth_append)
  next
    case (Suc k)
    with Cons.prems have k: "k < length x" by simp
    have "length y * Suc k + j = length y + (length y * k + j)" by simp
    then have "grid_calls clf (a # x) y ! (length y * i + j) =
                 grid_calls clf x y ! (length y * k + j)"
      by (simp add: Suc grid_calls_def nth_append)
    with Cons.IH [OF k] Suc show ?thesis by simp
  qed
qed

lemma grid_scores_nth:
  "i < length x \<Longrightarrow> j < length y \<Longrightarrow> grid_scores f x y ! i ! j = f (x ! i, y ! j)"
  by (simp add: grid_scores_def)

lemma grid_scores_shape:
  "length (grid_scores f x y) = length x"
  "i < length x \<Longrightarrow> length (grid_scores f x y ! i) = length y"
  by (simp_all add: grid_scores_def)

lemma total_choice:
  assumes "\<forall>p. \<exists>v. decision_function c [p] = Inr [v]"
  obtains f where "\<forall>p. decision_function c [p] = Inr [f p]"
  using assms by metis

lemma empty_world_extents: "current_extents empty_world = ((0, 1), (0, 1))"
  by (simp add: current_extents_def plt_xlim_def plt_ylim_def gca_def add_axes_def
      empty_world_def new_axes_def Let_def)

lemma two_axes_world_extents: "current_extents two_axes_world = ((0, 1), (0, 1))"
  by (simp add: current_extents_def plt_xlim_def plt_ylim_def gca_def
      two_axes_world_def new_axes_def)

lemma lin_clf_total:
  "\<forall>p. decision_function lin_clf [p] = Inr [2 * fst p + 3 * snd p + 1]"
  by (simp add: lin_clf_def split_beta)

section \<open>The outcome of the renderer in terms of its loop\<close>

lemma renderer_fst:
  "fst (plot_svc_decision_function L clf ax w) =
     (case score_loop clf w of Inl e \<Rightarrow> Inl e | Inr P \<Rightarrow> Inr ())"
  by (simp add: renderer_score_loop Let_def split: sum.splits)

lemma renderer_drawn:
  assumes "score_loop clf w = Inr P"
  shows "drawn (snd (plot_svc_decision_function L clf ax w)) (target_axes ax w) =
           margins (grid_x w) (grid_y w) P"
  using assms by (simp add: renderer_score_loop Let_def add_artist_drawn grid_x_def grid_y_def)



lemma samples_step:
  assumes "i < 29"
  shows "samples ext ! Suc i - samples ext ! i = (snd ext - fst ext) / 29"
  using linspace_step [of i 30 "fst ext" "snd ext"] assms by (simp add: samples_def)

lemma renderer_grid_spans_current_extents:
  "length (grid_x w) = 30 \<and> length (grid_y w) = 30 \<and>
   grid_x w ! 0 = fst (fst (current_extents w)) \<and>
   grid_x w ! 29 = snd (fst (current_extents w)) \<and>
   grid_y w ! 0 = fst (snd (current_extents w)) \<and>
   grid_y w ! 29 = snd (snd (current_extents w)) \<and>
   (\<forall>i<29. grid_x w ! Suc i - grid_x w ! i =
              (snd (fst (current_extents w)) - fst (fst (current_extents w))) / 29 \<and>
            grid_y w ! Suc i - grid_y w ! i =
              (snd (snd (current_extents w)) - fst (snd (current_extents w))) / 29)"
  unfolding grid_x_def grid_y_def
  by (simp add: length_samples samples_first samples_last samples_step)

section \<open>Properties of the renderer\<close>

text \<open>
  Claim C9. The renderer never changes the classifier it is given: whatever the call
  does, ending normally or with an exception, the store of classifier objects is the same
  afterwards, so the decision function and the support vectors of the classifier are the
  ones it had before the call. The renderer only asks it for scores.
\<close>

theorem renderer_keeps_classifier:
  "clf_heap (snd (plot_svc_decision_function L clf ax w)) = clf_heap w \<and>
   decision_function (clf_heap (snd (plot_svc_decision_function L clf ax w)) clf) =
     decision_function (clf_heap w clf) \<and>
   support_vectors (clf_heap (snd (plot_svc_decision_function L clf ax w)) clf) =
     support_vectors (clf_heap w clf) \<and>
   next_clf (snd (plot_svc_decision_function L clf ax w)) = next_clf w"
proof -
  have "next_clf (snd (plot_svc_decision_function L clf ax w)) = next_clf w"
    using renderer_cases [where clf = clf and w = w and L = L and ax = ax]
    by (cases "score_loop clf w") (auto simp: add_artist_def Let_def split_beta gca_next_clf)
  then show ?thesis by (simp add: renderer_clf_heap)
qed

text \<open>
  Claim C2. When the classifier scores every single point, the renderer asks for 900
  scores, each by a call of its own on one point and in the order of the double loop
  (the call number \<open>30 i + j\<close> is on the point \<open>(x\<^sub>i, y\<^sub>j)\<close>), and the grid \<open>P\<close> it
  hands to \<open>contour\<close> has 30 rows of 30 scores with \<open>P[i, j]\<close> the score of that point;
  the coordinate grids passed along with it hold \<open>x\<^sub>i\<close> and \<open>y\<^sub>j\<close> at the same position.
\<close>

theorem renderer_one_call_per_point:
  assumes "\<forall>p. \<exists>v. decision_function (clf_heap w clf) [p] = Inr [v]"
  shows "\<exists>P cs.
     fst (plot_svc_decision_function L clf ax w) = Inr () \<and>
     lib_calls (snd (plot_svc_decision_function L clf ax w)) = lib_calls w @ cs \<and>
     length cs = 900 \<and> list_all (single_call clf) cs \<and>
     drawn (snd (plot_svc_decision_function L clf ax w)) (target_axes ax w) =
       margins (grid_x w) (grid_y w) P \<and>
     length P = 30 \<and>
     (\<forall>i<30. length (P ! i) = 30 \<and>
        (\<forall>j<30. cs ! (30 * i + j) = DecisionFunction clf [(grid_x w ! i, grid_y w ! j)] \<and>
           decision_function (clf_heap w clf) [(grid_x w ! i, grid_y w ! j)] = Inr [P ! i ! j] \<and>
           snd (meshgrid (grid_y w) (grid_x w)) ! i ! j = grid_x w ! i \<and>
           fst (meshgrid (grid_y w) (grid_x w)) ! i ! j = grid_y w ! j))"
proof -
  from assms obtain f where f: "\<forall>p. decision_function (clf_heap w clf) [p] = Inr [f p]"
    by (rule total_choice)
  let ?x = "grid_x w" and ?y = "grid_y w"
  let ?r = "plot_svc_decision_function L clf ax w"
  have len: "length ?x = 30" "length ?y = 30"
    by (simp_all add: grid_x_def grid_y_def length_samples)
  have r: "?r = (Inr (), add_artist L (target_axes ax w) (margins ?x ?y (grid_scores f ?x ?y))
                   ((snd (gca w))\<lparr>lib_calls := lib_calls w @ grid_calls clf ?x ?y\<rparr>))"
    unfolding grid_x_def grid_y_def by (rule renderer_total [OF f])
  have single: "list_all (single_call clf) (grid_calls clf ?x ?y)"
    by (simp add: grid_calls_def list_all_iff single_call_def)
  have "fst ?r = Inr ()" using r by simp
  moreover have "lib_calls (snd ?r) = lib_calls w @ grid_calls clf ?x ?y"
    using r by (simp add: add_artist_lib_calls)
  moreover have "length (grid_calls clf ?x ?y) = 900"
    by (simp add: length_grid_calls len)
  moreover have "drawn (snd ?r) (target_axes ax w) = margins ?x ?y (grid_scores f ?x ?y)"
    using r by (simp add: add_artist_drawn)
  moreover have "length (grid_scores f ?x ?y) = 30"
    by (simp add: grid_scores_shape len)
  moreover have "\<forall>i<30. length (grid_scores f ?x ?y ! i) = 30 \<and>
        (\<forall>j<30. grid_calls clf ?x ?y ! (30 * i + j) = DecisionFunction clf [(?x ! i, ?y ! j)] \<and>
           decision_function (clf_heap w clf) [(?x ! i, ?y ! j)] =
             Inr [grid_scores f ?x ?y ! i ! j] \<and>
           snd (meshgrid ?y ?x) ! i ! j = ?x ! i \<and>
           fst (meshgrid ?y ?x) ! i ! j = ?y ! j)"
  proof (intro allI impI conjI)
    fix i j :: nat
    assume i: "i < 30" and j: "j < 30"
    show "length (grid_scores f ?x ?y ! i) = 30"
      using i by (simp add: grid_scores_shape len)
    show "grid_calls clf ?x ?y ! (30 * i + j) = DecisionFunction clf [(?x ! i, ?y ! j)]"
      using grid_calls_nth [of i ?x j ?y clf] i j by (simp add: len)
    show "decision_function (clf_heap w clf) [(?x ! i, ?y ! j)] =
             Inr [grid_scores f ?x ?y ! i ! j]"
      using i j by (simp add: grid_scores_nth len f)
    show "snd (meshgrid ?y ?x) ! i ! j = ?x ! i"
      using i j by (simp add: meshgrid_nth len)
    show "fst (meshgrid ?y ?x) ! i ! j = ?y ! j"
      using i j by (simp add: meshgrid_nth len)
  qed
  ultimately show ?thesis using single by blast
qed

theorem renderer_one_call_per_point_witness:
  "(\<forall>p. \<exists>v. decision_function (clf_heap empty_world 0) [p] = Inr [v]) \<and>
   (\<exists>P cs.
      fst (plot_svc_decision_function toy_lib 0 None empty_world) = Inr () \<and>
      lib_calls (snd (plot_svc_decision_function toy_lib 0 None empty_world)) = cs \<and>
      length cs = 900 \<and>
      drawn (snd (plot_svc_decision_function toy_lib 0 None empty_world)) 0 =
        margins (samples (0, 1)) (samples (0, 1)) P \<and>
      cs ! 37 = DecisionFunction 0 [(1 / 29, 7 / 29)] \<and>
      P ! 1 ! 7 = 52 / 29)"
proof -
  have h: "\<forall>p. \<exists>v. decision_function (clf_heap empty_world 0) [p] = Inr [v]"
    by (simp add: empty_world_def lin_clf_def split_beta)
  have x: "grid_x empty_world = samples (0, 1)" and y: "grid_y empty_world = samples (0, 1)"
    by (simp_all add: grid_x_def grid_y_def empty_world_extents)
  have t: "target_axes None empty_world = 0"
    by (simp add: target_axes_def gca_def add_axes_def empty_world_def Let_def)
  have ch: "clf_heap empty_world 0 = lin_clf"
    by (simp add: empty_world_def)
  have s: "samples (0, 1) ! 1 = 1 / 29" "samples (0, 1) ! 7 = 7 / 29"
    by (simp_all add: samples_nth)
  from renderer_one_call_per_point [OF h, of toy_lib None] obtain P cs where
    ok: "fst (plot_svc_decision_function toy_lib 0 None empty_world) = Inr ()"
    and calls: "lib_calls (snd (plot_svc_decision_function toy_lib 0 None empty_world)) =
        lib_calls empty_world @ cs"
    and len: "length cs = 900"
    and dr: "drawn (snd (plot_svc_decision_function toy_lib 0 None empty_world))
        (target_axes None empty_world) = margins (grid_x empty_world) (grid_y empty_world) P"
    and pts: "\<forall>i<30. length (P ! i) = 30 \<and>
        (\<forall>j<30. cs ! (30 * i + j) =
             DecisionFunction 0 [(grid_x empty_world ! i, grid_y empty_world ! j)] \<and>
           decision_function (clf_heap empty_world 0)
             [(grid_x empty_world ! i, grid_y empty_world ! j)] = Inr [P ! i ! j] \<and>
           snd (meshgrid (grid_y empty_world) (grid_x empty_world)) ! i ! j =
             grid_x empty_world ! i \<and>
           fst (meshgrid (grid_y empty_world) (grid_x empty_world)) ! i ! j =
             grid_y empty_world ! j)"
    by blast
  have i: "(1::nat) < 30" and j: "(7::nat) < 30" by simp_all
  from pts i j have "cs ! (30 * 1 + 7) =
        DecisionFunction 0 [(grid_x empty_world ! 1, grid_y empty_world ! 7)] \<and>
      decision_function (clf_heap empty_world 0)
        [(grid_x empty_world ! 1, grid_y empty_world ! 7)] = Inr [P ! 1 ! 7]"
    by blast
  then have "cs ! 37 = DecisionFunction 0 [(1 / 29, 7 / 29)]" and "P ! 1 ! 7 = 52 / 29"
    unfolding x y s ch by (simp_all add: lin_clf_total)
  moreover have "lib_calls (snd (plot_svc_decision_function toy_lib 0 None empty_world)) = cs"
    using calls by (simp add: empty_world_def)
  ultimately show ?thesis
    using h ok len dr by (auto simp: x y t)
qed

text \<open>
  Claim C7. For a classifier whose score is the linear function \<open>a x + b y + c\<close>, the
  renderer draws the levels \<open>-1\<close>, \<open>0\<close> and \<open>1\<close> of a grid that holds exactly
  \<open>a x\<^sub>i + b y\<^sub>j + c\<close> at the position of the sample point \<open>(x\<^sub>i, y\<^sub>j)\<close>, so a grid point
  is on a drawn level exactly when it is on the corresponding line.
\<close>

theorem renderer_linear_levels:
  assumes "\<forall>p. decision_function (clf_heap w clf) [p] = Inr [a * fst p + b * snd p + c]"
  shows "\<exists>X Y P.
     fst (plot_svc_decision_function L clf ax w) = Inr () \<and>
     drawn (snd (plot_svc_decision_function L clf ax w)) (target_axes ax w) =
       Contour X Y P ''k'' [-1, 0, 1] (1 / 2) [''--'', ''-'', ''--''] \<and>
     (\<forall>i<30. \<forall>j<30.
        X ! i ! j = grid_x w ! i \<and> Y ! i ! j = grid_y w ! j \<and>
        P ! i ! j = a * X ! i ! j + b * Y ! i ! j + c \<and>
        (\<forall>l\<in>set [-1, 0, 1]. P ! i ! j = l \<longleftrightarrow> a * grid_x w ! i + b * grid_y w ! j + c = l))"
proof -
  let ?f = "\<lambda>p. a * fst p + b * snd p + c"
  let ?x = "grid_x w" and ?y = "grid_y w"
  let ?r = "plot_svc_decision_function L clf ax w"
  let ?X = "snd (meshgrid ?y ?x)" and ?Y = "fst (meshgrid ?y ?x)" and ?P = "grid_scores ?f ?x ?y"
  have len: "length ?x = 30" "length ?y = 30"
    by (simp_all add: grid_x_def grid_y_def length_samples)
  have r: "?r = (Inr (), add_artist L (target_axes ax w) (margins ?x ?y ?P)
                   ((snd (gca w))\<lparr>lib_calls := lib_calls w @ grid_calls clf ?x ?y\<rparr>))"
    unfolding grid_x_def grid_y_def by (rule renderer_total [OF assms])
  have "fst ?r = Inr ()" using r by simp
  moreover have "drawn (snd ?r) (target_axes ax w) =
      Contour ?X ?Y ?P ''k'' [-1, 0, 1] (1 / 2) [''--'', ''-'', ''--'']"
    using r by (simp add: add_artist_drawn margins_def)
  moreover have "\<forall>i<30. \<forall>j<30.
        ?X ! i ! j = ?x ! i \<and> ?Y ! i ! j = ?y ! j \<and>
        ?P ! i ! j = a * ?X ! i ! j + b * ?Y ! i ! j + c \<and>
        (\<forall>l\<in>set [-1, 0, 1]. ?P ! i ! j = l \<longleftrightarrow> a * ?x ! i + b * ?y ! j + c = l)"
    by (simp add: meshgrid_nth grid_scores_nth len)
  ultimately show ?thesis by blast
qed

theorem renderer_linear_levels_witness:
  "(\<forall>p. decision_function (clf_heap empty_world 0) [p] = Inr [2 * fst p + 3 * snd p + 1]) \<and>
   (\<exists>X Y P.
      fst (plot_svc_decision_function toy_lib 0 None empty_world) = Inr () \<and>
      drawn (snd (plot_svc_decision_function toy_lib 0 None empty_world)) 0 =
        Contour X Y P ''k'' [-1, 0, 1] (1 / 2) [''--'', ''-'', ''--''] \<and>
      X ! 29 ! 0 = 1 \<and> Y ! 29 ! 0 = 0 \<and> P ! 29 ! 0 = 3 \<and> P ! 0 ! 0 = 1 \<and> P ! 0 ! 0 \<noteq> 0)"
proof -
  have h: "\<forall>p. decision_function (clf_heap empty_world 0) [p] = Inr [2 * fst p + 3 * snd p + 1]"
    by (simp add: empty_world_def lin_clf_total)
  have x: "grid_x empty_world = samples (0, 1)" and y: "grid_y empty_world = samples (0, 1)"
    by (simp_all add: grid_x_def grid_y_def empty_world_extents)
  have t: "target_axes None empty_world = 0"
    by (simp add: target_axes_def gca_def add_axes_def empty_world_def Let_def)
  from renderer_linear_levels [OF h, of toy_lib None] obtain X Y P where
    ok: "fst (plot_svc_decision_function toy_lib 0 None empty_world) = Inr ()"
    and dr: "drawn (snd (plot_svc_decision_function toy_lib 0 None empty_world)) 0 =
        Contour X Y P ''k'' [-1, 0, 1] (1 / 2) [''--'', ''-'', ''--'']"
    and pts: "\<forall>i<30. \<forall>j<30.
        X ! i ! j = samples (0, 1) ! i \<and> Y ! i ! j = samples (0, 1) ! j \<and>
        P ! i ! j = 2 * X ! i ! j + 3 * Y ! i ! j + 1 \<and>
        (\<forall>l\<in>set [-1, 0, 1]. P ! i ! j = l \<longleftrightarrow>
           2 * samples (0, 1) ! i + 3 * samples (0, 1) ! j + 1 = l)"
    unfolding x y t by blast
  have i: "(29::nat) < 30" and j: "(0::nat) < 30" by simp_all
  from pts i j have "X ! 29 ! 0 = samples (0, 1) ! 29 \<and> Y ! 29 ! 0 = samples (0, 1) ! 0 \<and>
      P ! 29 ! 0 = 2 * X ! 29 ! 0 + 3 * Y ! 29 ! 0 + 1"
    by blast
  then have a: "X ! 29 ! 0 = 1 \<and> Y ! 29 ! 0 = 0 \<and> P ! 29 ! 0 = 3"
    by (simp add: samples_first samples_last)
  from pts j have "X ! 0 ! 0 = samples (0, 1) ! 0 \<and> Y ! 0 ! 0 = samples (0, 1) ! 0 \<and>
      P ! 0 ! 0 = 2 * X ! 0 ! 0 + 3 * Y ! 0 ! 0 + 1"
    by blast
  then have b: "P ! 0 ! 0 = 1"
    by (simp add: samples_first)
  from h ok dr a b show ?thesis by auto
qed

text \<open>
  The outcome of the score loop is a function of the decision function and of the
  extents pyplot reports when the renderer is called, whatever the target surface is.
\<close>

lemma renderer_same_reported_extents:
  assumes "decision_function (clf_heap w1 c1) = decision_function (clf_heap w2 c2)"
    and "current_extents w1 = current_extents w2"
  shows "score_loop c1 w1 = score_loop c2 w2 \<and>
     fst (plot_svc_decision_function L1 c1 ax1 w1) =
       fst (plot_svc_decision_function L2 c2 ax2 w2) \<and>
     (fst (plot_svc_decision_function L1 c1 ax1 w1) = Inr () \<longrightarrow>
        (\<exists>P. score_loop c1 w1 = Inr P \<and>
           drawn (snd (plot_svc_decision_function L1 c1 ax1 w1)) (target_axes ax1 w1) =
             margins (grid_x w1) (grid_y w1) P \<and>
           drawn (snd (plot_svc_decision_function L2 c2 ax2 w2)) (target_axes ax2 w2) =
             margins (grid_x w1) (grid_y w1) P))"
proof -
  have loop: "score_loop c1 w1 = score_loop c2 w2"
    using assms by (rule score_loop_cong)
  have grid: "grid_x w2 = grid_x w1" "grid_y w2 = grid_y w1"
    by (simp_all add: grid_x_def grid_y_def assms(2))
  have "fst (plot_svc_decision_function L1 c1 ax1 w1) =
          fst (plot_svc_decision_function L2 c2 ax2 w2)"
    by (simp add: renderer_fst loop)
  moreover have "\<exists>P. score_loop c1 w1 = Inr P \<and>
           drawn (snd (plot_svc_decision_function L1 c1 ax1 w1)) (target_axes ax1 w1) =
             margins (grid_x w1) (grid_y w1) P \<and>
           drawn (snd (plot_svc_decision_function L2 c2 ax2 w2)) (target_axes ax2 w2) =
             margins (grid_x w1) (grid_y w1) P"
    if "fst (plot_svc_decision_function L1 c1 ax1 w1) = Inr ()"
  proof -
    from that obtain P where P: "score_loop c1 w1 = Inr P"
      by (cases "score_loop c1 w1") (simp_all add: renderer_fst)
    with loop have P2: "score_loop c2 w2 = Inr P" by simp
    from renderer_drawn [OF P, of L1 ax1] renderer_drawn [OF P2, of L2 ax2] P
    show ?thesis by (simp add: grid)
  qed
  ultimately show ?thesis using loop by blast
qed

text \<open>
  Claim C6. The claim says that the same classifier and the same surface extents give
  the same score grid. The grid is computed from the extents of pyplot's current
  surface, not from those of the surface the renderer draws on (see C1). So two calls
  with the same classifier and the same target surface \<open>1\<close>, whose extents are
  \<open>[-1, 4]\<close> and \<open>[-1, 6]\<close> in both states, hand different score grids to \<open>contour\<close> when
  in one state the surface \<open>0\<close> with extents \<open>[0, 1]\<close> and \<open>[0, 1]\<close> is current and in
  the other the target itself.
\<close>

theorem renderer_grid_depends_on_current_surface:
  "clf_heap swapped_world = clf_heap two_axes_world \<and>
   axes_heap swapped_world = axes_heap two_axes_world \<and>
   extents swapped_world 1 = extents two_axes_world 1 \<and>
   target_axes (Some 1) swapped_world = target_axes (Some 1) two_axes_world \<and>
   fst (plot_svc_decision_function toy_lib 0 (Some 1) two_axes_world) = Inr () \<and>
   fst (plot_svc_decision_function toy_lib 0 (Some 1) swapped_world) = Inr () \<and>
   drawn (snd (plot_svc_decision_function toy_lib 0 (Some 1) two_axes_world)) 1 =
     margins (samples (0, 1)) (samples (0, 1))
       (grid_scores lin_score (samples (0, 1)) (samples (0, 1))) \<and>
   drawn (snd (plot_svc_decision_function toy_lib 0 (Some 1) swapped_world)) 1 =
     margins (samples (-1, 4)) (samples (-1, 6))
       (grid_scores lin_score (samples (-1, 4)) (samples (-1, 6))) \<and>
   grid_scores lin_score (samples (0, 1)) (samples (0, 1)) ! 29 ! 0 = 3 \<and>
   grid_scores lin_score (samples (-1, 4)) (samples (-1, 6)) ! 29 ! 0 = 6 \<and>
   grid_scores lin_score (samples (0, 1)) (samples (0, 1)) \<noteq>
     grid_scores lin_score (samples (-1, 4)) (samples (-1, 6))"
proof -
  have same: "clf_heap swapped_world = clf_heap two_axes_world"
    "axes_heap swapped_world = axes_heap two_axes_world"
    "extents swapped_world 1 = extents two_axes_world 1"
    "target_axes (Some 1) swapped_world = target_axes (Some 1) two_axes_world"
    by (simp_all add: swapped_world_def extents_def target_axes_def)
  have t: "target_axes (Some a) w = a" for a w
    by (simp add: target_axes_def)
  have f1: "\<forall>p. decision_function (clf_heap two_axes_world 0) [p] = Inr [lin_score p]"
    by (simp add: two_axes_world_def lin_clf_total lin_score_def)
  then have f2: "\<forall>p. decision_function (clf_heap swapped_world 0) [p] = Inr [lin_score p]"
    by (simp add: same)
  have e2: "current_extents swapped_world = ((-1, 4), (-1, 6))"
    by (simp add: current_extents_def plt_xlim_def plt_ylim_def gca_def swapped_world_def
        two_axes_world_def)
  note l1 = score_loop_total [OF f1, unfolded two_axes_world_extents fst_conv snd_conv]
  note l2 = score_loop_total [OF f2, unfolded e2 fst_conv snd_conv]
  have ok: "fst (plot_svc_decision_function toy_lib 0 (Some 1) two_axes_world) = Inr ()"
    "fst (plot_svc_decision_function toy_lib 0 (Some 1) swapped_world) = Inr ()"
    by (simp_all add: renderer_fst l1 l2)
  have d1: "drawn (snd (plot_svc_decision_function toy_lib 0 (Some 1) two_axes_world)) 1 =
     margins (samples (0, 1)) (samples (0, 1))
       (grid_scores lin_score (samples (0, 1)) (samples (0, 1)))"
    using renderer_drawn [OF l1, of toy_lib "Some 1"]
    unfolding t grid_x_def grid_y_def two_axes_world_extents fst_conv snd_conv .
  have d2: "drawn (snd (plot_svc_decision_function toy_lib 0 (Some 1) swapped_world)) 1 =
     margins (samples (-1, 4)) (samples (-1, 6))
       (grid_scores lin_score (samples (-1, 4)) (samples (-1, 6)))"
    using renderer_drawn [OF l2, of toy_lib "Some 1"]
    unfolding t grid_x_def grid_y_def e2 fst_conv snd_conv .
  have v1: "grid_scores lin_score (samples (0, 1)) (samples (0, 1)) ! 29 ! 0 = 3"
    by (simp add: grid_scores_nth length_samples samples_first samples_last lin_score_def)
  have v2: "grid_scores lin_score (samples (-1, 4)) (samples (-1, 6)) ! 29 ! 0 = 6"
    by (simp add: grid_scores_nth length_samples samples_first samples_last lin_score_def)
  from v1 v2 have ne: "grid_scores lin_score (samples (0, 1)) (samples (0, 1)) \<noteq>
     grid_scores lin_score (samples (-1, 4)) (samples (-1, 6))"
    by auto
  from same ok d1 d2 v1 v2 ne show ?thesis by (intro conjI)
qed



text \<open>
  Claim C1. The claim says that the sample grid spans the extents of the target surface.
  The renderer takes 30 evenly spaced samples per axis with both ends included (lemma
  \<open>renderer_grid_spans_current_extents\<close>), but it reads the extents with \<open>plt.xlim()\<close>
  and \<open>plt.ylim()\<close>, that is from pyplot's current surface, where the contour is drawn
  on \<open>ax\<close>. In a state with two figures, drawing on the surface \<open>1\<close> with extents
  \<open>[-1, 4]\<close> and \<open>[-1, 6]\<close> while the surface \<open>0\<close> with extents \<open>[0, 1]\<close> and \<open>[0, 1]\<close>
  is current, the grid drawn on the surface \<open>1\<close> spans \<open>[0, 1]\<close> on both axes.
\<close>

theorem renderer_grid_not_from_target:
  "extents two_axes_world 1 = ((-1, 4), (-1, 6)) \<and>
   fst (plot_svc_decision_function toy_lib 0 (Some 1) two_axes_world) = Inr () \<and>
   (\<exists>X Y P col levels alpha styles.
      drawn (snd (plot_svc_decision_function toy_lib 0 (Some 1) two_axes_world)) 1 =
        Contour X Y P col levels alpha styles \<and>
      X ! 0 ! 0 = 0 \<and> X ! 29 ! 0 = 1 \<and> Y ! 0 ! 0 = 0 \<and> Y ! 0 ! 29 = 1)"
proof -
  let ?s = "samples (0, 1)"
  have f: "\<forall>p. decision_function (clf_heap two_axes_world 0) [p] =
      Inr [2 * fst p + 3 * snd p + 1]"
    by (simp add: two_axes_world_def lin_clf_total)
  have x: "grid_x two_axes_world = ?s" and y: "grid_y two_axes_world = ?s"
    by (simp_all add: grid_x_def grid_y_def two_axes_world_extents)
  have t: "target_axes (Some a) two_axes_world = a" for a
    by (simp add: target_axes_def)
  from score_loop_total [OF f] obtain P where P: "score_loop 0 two_axes_world = Inr P"
    by blast
  then have ok: "fst (plot_svc_decision_function toy_lib 0 (Some 1) two_axes_world) = Inr ()"
    by (simp add: renderer_fst)
  from renderer_drawn [OF P, of toy_lib "Some 1"]
  have dr: "drawn (snd (plot_svc_decision_function toy_lib 0 (Some 1) two_axes_world)) 1 =
      Contour (snd (meshgrid ?s ?s)) (fst (meshgrid ?s ?s)) P ''k'' [-1, 0, 1] (1 / 2)
        [''--'', ''-'', ''--'']"
    unfolding t x y margins_def .
  have "snd (meshgrid ?s ?s) ! 0 ! 0 = 0" "snd (meshgrid ?s ?s) ! 29 ! 0 = 1"
    "fst (meshgrid ?s ?s) ! 0 ! 0 = 0" "fst (meshgrid ?s ?s) ! 0 ! 29 = 1"
    by (simp_all add: meshgrid_nth length_samples samples_first samples_last)
  moreover have "extents two_axes_world 1 = ((-1, 4), (-1, 6))"
    by (simp add: extents_def two_axes_world_def)
  ultimately have "drawn (snd (plot_svc_decision_function toy_lib 0 (Some 1) two_axes_world)) 1 =
        Contour (snd (meshgrid ?s ?s)) (fst (meshgrid ?s ?s)) P ''k'' [-1, 0, 1] (1 / 2)
          [''--'', ''-'', ''--''] \<and>
      snd (meshgrid ?s ?s) ! 0 ! 0 = 0 \<and> snd (meshgrid ?s ?s) ! 29 ! 0 = 1 \<and>
      fst (meshgrid ?s ?s) ! 0 ! 0 = 0 \<and> fst (meshgrid ?s ?s) ! 0 ! 29 = 1"
    and e: "extents two_axes_world 1 = ((-1, 4), (-1, 6))"
    using dr by simp_all
  then have "\<exists>X Y P col levels alpha styles.
      drawn (snd (plot_svc_decision_function toy_lib 0 (Some 1) two_axes_world)) 1 =
        Contour X Y P col levels alpha styles \<and>
      X ! 0 ! 0 = 0 \<and> X ! 29 ! 0 = 1 \<and> Y ! 0 ! 0 = 0 \<and> Y ! 0 ! 29 = 1"
    by (intro exI)
  with e ok show ?thesis by (intro conjI)
qed

section \<open>What the driver leaves behind\<close>

lemma slice_to_nonneg: "0 \<le> N \<Longrightarrow> slice_to xs N = take (nat N) xs"
  by (cases "N \<le> int (length xs)") (simp_all add: slice_to_def Let_def min_def)

lemma slice_to_prefix: "\<exists>n. slice_to xs N = take n xs"
  unfolding slice_to_def Let_def by blast

lemma plot_svm_shape:
  assumes fit: "svc_fit L ''linear'' X y = Inr c"
    and X: "X = slice_to (fst (dataset L)) N" and y: "y = slice_to (snd (dataset L)) N"
  shows "\<exists>A cs. list_all (single_call (next_clf w)) cs \<and>
     snd (plot_svm L (Some N) w) =
       w\<lparr>clf_heap := (clf_heap w)(next_clf w := c),
         next_clf := Suc (next_clf w),
         axes_heap := (axes_heap w)(next_ax w := A),
         next_ax := Suc (next_ax w),
         figs := [next_ax w] # figs w,
         lib_calls := lib_calls w @ [MakeBlobs 200 2 0 (6 / 10), Fit ''linear'' X y] @ cs\<rparr>"
proof (cases "length y = length X")
  case False
  have "list_all (single_call (next_clf w)) []" by simp
  moreover have "snd (plot_svm L (Some N) w) =
       w\<lparr>clf_heap := (clf_heap w)(next_clf w := c),
         next_clf := Suc (next_clf w),
         axes_heap := (axes_heap w)(next_ax w := new_axes),
         next_ax := Suc (next_ax w),
         figs := [next_ax w] # figs w,
         lib_calls := lib_calls w @ [MakeBlobs 200 2 0 (6 / 10), Fit ''linear'' X y] @ []\<rparr>"
    by (simp add: plot_svm_scatter_error [OF fit X y False])
  ultimately show ?thesis by blast
next
  case True
  show ?thesis
  proof (cases "score_loop (next_clf w) (scene L c X y w)")
    case (Inl e)
    from plot_svm_Inl [OF fit X y True Inl] obtain cs where
      cs: "list_all (single_call (next_clf w)) cs"
      and r: "plot_svm L (Some N) w =
       (Inl e, (scene L c X y w)\<lparr>lib_calls := lib_calls (scene L c X y w) @ cs\<rparr>)"
      by blast
    from r have "snd (plot_svm L (Some N) w) =
       w\<lparr>clf_heap := (clf_heap w)(next_clf w := c),
         next_clf := Suc (next_clf w),
         axes_heap := (axes_heap w)(next_ax w := axes_heap (scene L c X y w) (next_ax w)),
         next_ax := Suc (next_ax w),
         figs := [next_ax w] # figs w,
         lib_calls := lib_calls w @ [MakeBlobs 200 2 0 (6 / 10), Fit ''linear'' X y] @ cs\<rparr>"
      by (simp add: scene_def)
    with cs show ?thesis by blast
  next
    case (Inr P)
    from plot_svm_Inr [OF fit X y True Inr] obtain cs where
      cs: "list_all (single_call (next_clf w)) cs"
      and r: "plot_svm L (Some N) w =
       (Inr (),
        (scene L c X y w)
          \<lparr>axes_heap := (axes_heap (scene L c X y w))(next_ax w :=
             (axes_heap (scene L c X y w) (next_ax w))
               \<lparr>artists := artists (axes_heap (scene L c X y w) (next_ax w)) @
                  [margins (samples (-1, 4)) (samples (-1, 6)) P,
                   Scatter (map fst (support_vectors c)) (map snd (support_vectors c))
                     (CName ''none'') 200 None (Some 1) (Some ''k'')]\<rparr>),
           lib_calls := lib_calls (scene L c X y w) @ cs\<rparr>)"
      by blast
    from r have "snd (plot_svm L (Some N) w) =
       w\<lparr>clf_heap := (clf_heap w)(next_clf w := c),
         next_clf := Suc (next_clf w),
         axes_heap := (axes_heap w)(next_ax w :=
           (axes_heap (scene L c X y w) (next_ax w))
               \<lparr>artists := artists (axes_heap (scene L c X y w) (next_ax w)) @
                  [margins (samples (-1, 4)) (samples (-1, 6)) P,
                   Scatter (map fst (support_vectors c)) (map snd (support_vectors c))
                     (CName ''none'') 200 None (Some 1) (Some ''k'')]\<rparr>),
         next_ax := Suc (next_ax w),
         figs := [next_ax w] # figs w,
         lib_calls := lib_calls w @ [MakeBlobs 200 2 0 (6 / 10), Fit ''linear'' X y] @ cs\<rparr>"
      by (simp add: scene_def)
    with cs show ?thesis by blast
  qed
qed

lemma plot_svm_surface:
  assumes fit: "svc_fit L ''linear'' X y = Inr c"
    and X: "X = slice_to (fst (dataset L)) N" and y: "y = slice_to (snd (dataset L)) N"
    and len: "length y = length X"
  shows "axes_heap (snd (plot_svm L (Some N) w)) (next_ax w) =
     \<lparr>xlim = (-1, 4), ylim = (-1, 6), autoscalex_on = False, autoscaley_on = False,
      artists = Scatter (map fst X) (map snd X) (CValues y) 50 (Some ''spring'') None None #
        (case score_loop (next_clf w) (scene L c X y w) of
           Inl e \<Rightarrow> []
         | Inr P \<Rightarrow>
             [margins (samples (-1, 4)) (samples (-1, 6)) P,
              Scatter (map fst (support_vectors c)) (map snd (support_vectors c))
                (CName ''none'') 200 None (Some 1) (Some ''k'')])\<rparr>"
    and "fst (plot_svm L (Some N) w) =
      (case score_loop (next_clf w) (scene L c X y w) of Inl e \<Rightarrow> Inl e | Inr P \<Rightarrow> Inr ())"
proof -
  have "axes_heap (snd (plot_svm L (Some N) w)) (next_ax w) =
     \<lparr>xlim = (-1, 4), ylim = (-1, 6), autoscalex_on = False, autoscaley_on = False,
      artists = Scatter (map fst X) (map snd X) (CValues y) 50 (Some ''spring'') None None #
        (case score_loop (next_clf w) (scene L c X y w) of
           Inl e \<Rightarrow> []
         | Inr P \<Rightarrow>
             [margins (samples (-1, 4)) (samples (-1, 6)) P,
              Scatter (map fst (support_vectors c)) (map snd (support_vectors c))
                (CName ''none'') 200 None (Some 1) (Some ''k'')])\<rparr> \<and>
    fst (plot_svm L (Some N) w) =
      (case score_loop (next_clf w) (scene L c X y w) of Inl e \<Rightarrow> Inl e | Inr P \<Rightarrow> Inr ())"
  proof (cases "score_loop (next_clf w) (scene L c X y w)")
    case (Inl e)
    from plot_svm_Inl [OF fit X y len Inl] obtain cs where
      "plot_svm L (Some N) w =
       (Inl e, (scene L c X y w)\<lparr>lib_calls := lib_calls (scene L c X y w) @ cs\<rparr>)"
      by blast
    with Inl show ?thesis by (simp add: scene_def)
  next
    case (Inr P)
    from plot_svm_Inr [OF fit X y len Inr] obtain cs where
      "plot_svm L (Some N) w =
       (Inr (),
        (scene L c X y w)
          \<lparr>axes_heap := (axes_heap (scene L c X y w))(next_ax w :=
             (axes_heap (scene L c X y w) (next_ax w))
               \<lparr>artists := artists (axes_heap (scene L c X y w) (next_ax w)) @
                  [margins (samples (-1, 4)) (samples (-1, 6)) P,
                   Scatter (map fst (support_vectors c)) (map snd (support_vectors c))
                     (CName ''none'') 200 None (Some 1) (Some ''k'')]\<rparr>),
           lib_calls := lib_calls (scene L c X y w) @ cs\<rparr>)"
      by blast
    with Inr show ?thesis by (simp add: scene_def)
  qed
  then show "axes_heap (snd (plot_svm L (Some N) w)) (next_ax w) =
     \<lparr>xlim = (-1, 4), ylim = (-1, 6), autoscalex_on = False, autoscaley_on = False,
      artists = Scatter (map fst X) (map snd X) (CValues y) 50 (Some ''spring'') None None #
        (case score_loop (next_clf w) (scene L c X y w) of
           Inl e \<Rightarrow> []
         | Inr P \<Rightarrow>
             [margins (samples (-1, 4)) (samples (-1, 6)) P,
              Scatter (map fst (support_vectors c)) (map snd (support_vectors c))
                (CName ''none'') 200 None (Some 1) (Some ''k'')])\<rparr>"
    and "fst (plot_svm L (Some N) w) =
      (case score_loop (next_clf w) (scene L c X y w) of Inl e \<Rightarrow> Inl e | Inr P \<Rightarrow> Inr ())"
    by blast+
qed

lemma score_loop_scene:
  "score_loop (next_clf v) (scene L c X y v) = score_loop (next_clf w) (scene L c X y w)"
  by (rule score_loop_cong) (simp_all add: scene_facts)

lemma plot_svm_independent:
  assumes fit: "svc_fit L ''linear'' X y = Inr c"
    and X: "X = slice_to (fst (dataset L)) N" and y: "y = slice_to (snd (dataset L)) N"
  shows "fst (plot_svm L (Some N) v) = fst (plot_svm L (Some N) w) \<and>
     axes_heap (snd (plot_svm L (Some N) v)) (next_ax v) =
       axes_heap (snd (plot_svm L (Some N) w)) (next_ax w)"
proof (cases "length y = length X")
  case True
  show ?thesis
    unfolding plot_svm_surface [OF fit X y True] score_loop_scene [of v L c X y w] by simp
next
  case False
  show ?thesis
    unfolding plot_svm_scatter_error [OF fit X y False] by simp
qed

lemma plot_svm_calls:
  "\<exists>cs. list_all (single_call (next_clf w)) cs \<and>
     lib_calls (snd (plot_svm L (Some N) w)) =
       lib_calls w @
         [MakeBlobs 200 2 0 (6 / 10),
          Fit ''linear'' (slice_to (fst (dataset L)) N) (slice_to (snd (dataset L)) N)] @ cs"
proof (cases "svc_fit L ''linear'' (slice_to (fst (dataset L)) N) (slice_to (snd (dataset L)) N)")
  case (Inl e)
  have "list_all (single_call (next_clf w)) []" by simp
  moreover have "lib_calls (snd (plot_svm L (Some N) w)) =
       lib_calls w @
         [MakeBlobs 200 2 0 (6 / 10),
          Fit ''linear'' (slice_to (fst (dataset L)) N) (slice_to (snd (dataset L)) N)] @ []"
    by (simp add: plot_svm_fit_error [OF Inl])
  ultimately show ?thesis by blast
next
  case (Inr c)
  from plot_svm_shape [OF Inr refl refl, of w] obtain A cs where
    cs: "list_all (single_call (next_clf w)) cs"
    and s: "snd (plot_svm L (Some N) w) =
       w\<lparr>clf_heap := (clf_heap w)(next_clf w := c),
         next_clf := Suc (next_clf w),
         axes_heap := (axes_heap w)(next_ax w := A),
         next_ax := Suc (next_ax w),
         figs := [next_ax w] # figs w,
         lib_calls := lib_calls w @
           [MakeBlobs 200 2 0 (6 / 10),
            Fit ''linear'' (slice_to (fst (dataset L)) N) (slice_to (snd (dataset L)) N)] @ cs\<rparr>"
    by blast
  have "lib_calls (snd (plot_svm L (Some N) w)) =
       lib_calls w @
         [MakeBlobs 200 2 0 (6 / 10),
          Fit ''linear'' (slice_to (fst (dataset L)) N) (slice_to (snd (dataset L)) N)] @ cs"
    unfolding s by simp
  with cs show ?thesis by blast
qed

lemma plot_svm_other_axes:
  assumes "b \<noteq> next_ax w"
  shows "axes_heap (snd (plot_svm L (Some N) w)) b = axes_heap w b"
proof (cases "svc_fit L ''linear'' (slice_to (fst (dataset L)) N) (slice_to (snd (dataset L)) N)")
  case (Inl e)
  show ?thesis by (simp add: plot_svm_fit_error [OF Inl])
next
  case (Inr c)
  from plot_svm_shape [OF Inr refl refl, of w] obtain A cs where
    s: "snd (plot_svm L (Some N) w) =
       w\<lparr>clf_heap := (clf_heap w)(next_clf w := c),
         next_clf := Suc (next_clf w),
         axes_heap := (axes_heap w)(next_ax w := A),
         next_ax := Suc (next_ax w),
         figs := [next_ax w] # figs w,
         lib_calls := lib_calls w @
           [MakeBlobs 200 2 0 (6 / 10),
            Fit ''linear'' (slice_to (fst (dataset L)) N) (slice_to (snd (dataset L)) N)] @ cs\<rparr>"
    by blast
  show ?thesis unfolding s using assms by simp
qed

lemma toy_dataset:
  "fst (dataset toy_lib) = map (\<lambda>i. (real i, real i)) [0..<200]"
  "snd (dataset toy_lib) = map (\<lambda>i. int (i mod 2)) [0..<200]"
  by (simp_all add: dataset_def toy_lib_def)

lemma toy_fit:
  "svc_fit toy_lib ''linear'' (slice_to (fst (dataset toy_lib)) 10)
     (slice_to (snd (dataset toy_lib)) 10) = Inr lin_clf"
  unfolding toy_dataset by (simp add: slice_to_def toy_lib_def)

lemma toy_len:
  "length (slice_to (snd (dataset toy_lib)) 10) = length (slice_to (fst (dataset toy_lib)) 10)"
  by (simp add: toy_dataset slice_to_def)

lemma slice_to_negative: "N < 0 \<Longrightarrow> slice_to xs N = take (length xs - nat (- N)) xs"
proof -
  assume "N < 0"
  then have "nat (max 0 (N + int (length xs))) = length xs - nat (- N)"
    by (simp add: max_def nat_diff_distrib') linarith
  with \<open>N < 0\<close> show ?thesis
    by (simp add: slice_to_def Let_def)
qed

lemma blobs_contract_dataset:
  assumes "blobs_contract L"
  shows "length (fst (dataset L)) = 200" "length (snd (dataset L)) = 200"
    "list_all (\<lambda>l. l = 0 \<or> l = 1) (snd (dataset L))"
proof -
  from assms have "length (fst (make_blobs L 200 2 0 (6 / 10))) = 200 \<and>
      length (snd (make_blobs L 200 2 0 (6 / 10))) = 200 \<and>
      ((0::nat) < 2 \<longrightarrow>
         list_all (\<lambda>l. 0 \<le> l \<and> l < int 2) (snd (make_blobs L 200 2 0 (6 / 10))))"
    unfolding blobs_contract_def by blast
  then have a: "length (fst (make_blobs L 200 2 0 (6 / 10))) = 200"
    and b: "length (snd (make_blobs L 200 2 0 (6 / 10))) = 200"
    and c: "list_all (\<lambda>l. 0 \<le> l \<and> l < int 2) (snd (make_blobs L 200 2 0 (6 / 10)))"
    by simp_all
  show "length (fst (dataset L)) = 200" "length (snd (dataset L)) = 200"
    using a b by (simp_all only: dataset_def)
  have "(0 \<le> l \<and> l < int 2) = (l = 0 \<or> l = 1)" for l :: int
    by auto
  with c show "list_all (\<lambda>l. l = 0 \<or> l = 1) (snd (dataset L))"
    by (simp only: dataset_def)
qed

lemma toy_lib_contract: "blobs_contract toy_lib"
  by (simp add: blobs_contract_def toy_lib_def list_all_iff)

lemma wf_world_fresh: "wf_world w \<Longrightarrow> \<not> list_ex (\<lambda>f. next_ax w \<in> set f) (figs w)"
  by (auto simp: wf_world_def list_all_iff list_ex_iff)

section \<open>Properties of the driver\<close>

text \<open>
  Claim C3. For every sample count \<open>N\<close>, the points and the labels that \<open>plot_svm(N)\<close>
  fits and scatters are exactly the first \<open>N\<close> rows and the first \<open>N\<close> labels of the
  dataset generated with 200 samples and the random state 0: a prefix in the original
  order, not a resampling, in which a label stays with its point. The fit is called
  once, on this prefix, and the first thing drawn on the new surface is the scatter of
  these points coloured by these labels.
\<close>

theorem plot_svm_prefix:
  assumes "0 \<le> N"
  shows "slice_to (fst (dataset L)) N = take (nat N) (fst (dataset L)) \<and>
     slice_to (snd (dataset L)) N = take (nat N) (snd (dataset L)) \<and>
     zip (take (nat N) (fst (dataset L))) (take (nat N) (snd (dataset L))) =
       take (nat N) (zip (fst (dataset L)) (snd (dataset L))) \<and>
     dataset L = make_blobs L 200 2 0 (6 / 10) \<and>
     (\<exists>cs. list_all (single_call (next_clf w)) cs \<and>
        lib_calls (snd (plot_svm L (Some N) w)) =
          lib_calls w @
            [MakeBlobs 200 2 0 (6 / 10),
             Fit ''linear'' (take (nat N) (fst (dataset L))) (take (nat N) (snd (dataset L)))] @
            cs) \<and>
     (\<forall>c. svc_fit L ''linear'' (take (nat N) (fst (dataset L)))
            (take (nat N) (snd (dataset L))) = Inr c \<and>
          length (take (nat N) (snd (dataset L))) = length (take (nat N) (fst (dataset L))) \<longrightarrow>
          hd (artists (axes_heap (snd (plot_svm L (Some N) w)) (next_ax w))) =
            Scatter (map fst (take (nat N) (fst (dataset L))))
              (map snd (take (nat N) (fst (dataset L))))
              (CValues (take (nat N) (snd (dataset L)))) 50 (Some ''spring'') None None)"
proof -
  let ?X = "take (nat N) (fst (dataset L))" and ?y = "take (nat N) (snd (dataset L))"
  have X: "slice_to (fst (dataset L)) N = ?X" and y: "slice_to (snd (dataset L)) N = ?y"
    using assms by (simp_all add: slice_to_nonneg)
  have sc: "\<forall>c. svc_fit L ''linear'' ?X ?y = Inr c \<and> length ?y = length ?X \<longrightarrow>
      hd (artists (axes_heap (snd (plot_svm L (Some N) w)) (next_ax w))) =
        Scatter (map fst ?X) (map snd ?X) (CValues ?y) 50 (Some ''spring'') None None"
  proof (intro allI impI, elim conjE)
    fix c
    assume "svc_fit L ''linear'' ?X ?y = Inr c" and "length ?y = length ?X"
    from plot_svm_surface(1) [OF this(1) X [symmetric] y [symmetric] this(2), of w]
    show "hd (artists (axes_heap (snd (plot_svm L (Some N) w)) (next_ax w))) =
        Scatter (map fst ?X) (map snd ?X) (CValues ?y) 50 (Some ''spring'') None None"
      by simp
  qed
  from plot_svm_calls [of w L N]
  have calls: "\<exists>cs. list_all (single_call (next_clf w)) cs \<and>
        lib_calls (snd (plot_svm L (Some N) w)) =
          lib_calls w @ [MakeBlobs 200 2 0 (6 / 10), Fit ''linear'' ?X ?y] @ cs"
    unfolding X y .
  have z: "zip ?X ?y = take (nat N) (zip (fst (dataset L)) (snd (dataset L)))"
    by (simp add: take_zip)
  have d: "dataset L = make_blobs L 200 2 0 (6 / 10)"
    by (simp only: dataset_def)
  from X y z d calls sc show ?thesis
    by (intro conjI)
qed

theorem plot_svm_prefix_witness:
  "(0::int) \<le> 10 \<and>
   slice_to (fst (dataset toy_lib)) 10 = map (\<lambda>i. (real i, real i)) [0..<10] \<and>
   slice_to (snd (dataset toy_lib)) 10 = map (\<lambda>i. int (i mod 2)) [0..<10] \<and>
   (\<exists>cs. lib_calls (snd (plot_svm toy_lib (Some 10) empty_world)) =
      [MakeBlobs 200 2 0 (6 / 10),
       Fit ''linear'' (map (\<lambda>i. (real i, real i)) [0..<10])
         (map (\<lambda>i. int (i mod 2)) [0..<10])] @ cs) \<and>
   hd (artists (axes_heap (snd (plot_svm toy_lib (Some 10) empty_world)) 0)) =
     Scatter (map real [0..<10]) (map real [0..<10])
       (CValues (map (\<lambda>i. int (i mod 2)) [0..<10])) 50 (Some ''spring'') None None"
proof -
  have h: "(0::int) \<le> 10" by simp
  have X: "take (nat 10) (fst (dataset toy_lib)) = map (\<lambda>i. (real i, real i)) [0..<10]"
    and y: "take (nat 10) (snd (dataset toy_lib)) = map (\<lambda>i. int (i mod 2)) [0..<10]"
    by (simp_all add: toy_dataset take_map)
  have fit: "svc_fit toy_lib ''linear'' (map (\<lambda>i. (real i, real i)) [0..<10])
      (map (\<lambda>i. int (i mod 2)) [0..<10]) = Inr lin_clf"
    by (simp add: toy_lib_def)
  have e: "lib_calls empty_world = []" "next_ax empty_world = 0"
    by (simp_all add: empty_world_def)
  from plot_svm_prefix [OF h, of toy_lib empty_world] fit
  show ?thesis
    unfolding X y e by (auto simp: comp_def)
qed

text \<open>
  Claim C5. Whenever the driver reaches the renderer, that is when the fit has returned
  a classifier and the points are scattered, it calls the renderer on the current
  surface in a state where this surface has the extents \<open>[-1, 4]\<close> and \<open>[-1, 6]\<close>,
  whatever \<open>N\<close> is. So the renderer samples exactly this window, both ends included,
  the extents are still these when the driver ends, and for a classifier that scores
  every point the second thing drawn on the surface is the contour plot over this grid.
\<close>

theorem plot_svm_window:
  assumes fit: "svc_fit L ''linear'' X y = Inr c"
    and X: "X = slice_to (fst (dataset L)) N" and y: "y = slice_to (snd (dataset L)) N"
    and len: "length y = length X"
  shows "plot_svm L (Some N) w =
           (case plot_svc_decision_function L (next_clf w) (Some (next_ax w)) (scene L c X y w) of
              (Inl e, w') \<Rightarrow> (Inl e, w')
            | (Inr u, w') \<Rightarrow>
                plt_scatter L (map fst (support_vectors (clf_heap w' (next_clf w))))
                  (map snd (support_vectors (clf_heap w' (next_clf w)))) (CName ''none'') 200
                  None (Some 1) (Some ''k'') w') \<and>
     extents (scene L c X y w) (next_ax w) = ((-1, 4), (-1, 6)) \<and>
     fst (gca (scene L c X y w)) = next_ax w \<and>
     grid_x (scene L c X y w) = samples (-1, 4) \<and>
     grid_y (scene L c X y w) = samples (-1, 6) \<and>
     samples (-1, 4) ! 0 = -1 \<and> samples (-1, 4) ! 29 = 4 \<and>
     samples (-1, 6) ! 0 = -1 \<and> samples (-1, 6) ! 29 = 6 \<and>
     extents (snd (plot_svm L (Some N) w)) (next_ax w) = ((-1, 4), (-1, 6)) \<and>
     ((\<forall>p. \<exists>v. decision_function c [p] = Inr [v]) \<longrightarrow>
        fst (plot_svm L (Some N) w) = Inr () \<and>
        (\<exists>P. artists (axes_heap (snd (plot_svm L (Some N) w)) (next_ax w)) ! 1 =
           margins (samples (-1, 4)) (samples (-1, 6)) P))"
proof -
  let ?s = "scene L c X y w"
  note surf = plot_svm_surface [OF fit X y len, of w]
  have "fst (plot_svm L (Some N) w) = Inr () \<and>
        (\<exists>P. artists (axes_heap (snd (plot_svm L (Some N) w)) (next_ax w)) ! 1 =
           margins (samples (-1, 4)) (samples (-1, 6)) P)"
    if "\<forall>p. \<exists>v. decision_function c [p] = Inr [v]"
  proof -
    from that obtain f where "\<forall>p. decision_function c [p] = Inr [f p]"
      by (rule total_choice)
    then have "\<forall>p. decision_function (clf_heap ?s (next_clf w)) [p] = Inr [f p]"
      by (simp add: scene_facts)
    from score_loop_total [OF this] obtain P where "score_loop (next_clf w) ?s = Inr P"
      by blast
    then show ?thesis unfolding surf by auto
  qed
  moreover have "extents (snd (plot_svm L (Some N) w)) (next_ax w) = ((-1, 4), (-1, 6))"
    unfolding extents_def surf by simp
  moreover have "grid_x ?s = samples (-1, 4)" "grid_y ?s = samples (-1, 6)"
    by (simp_all add: grid_x_def grid_y_def scene_facts)
  moreover have "samples (-1, 4) ! 0 = -1" "samples (-1, 4) ! 29 = 4"
    "samples (-1, 6) ! 0 = -1" "samples (-1, 6) ! 29 = 6"
    by (simp_all add: samples_first samples_last)
  moreover note plot_svm_to_renderer [OF fit X y len, of w] scene_facts(1,3) [of L c X y w]
  ultimately show ?thesis by simp
qed

theorem plot_svm_window_witness:
  "svc_fit toy_lib ''linear'' (slice_to (fst (dataset toy_lib)) 10)
     (slice_to (snd (dataset toy_lib)) 10) = Inr lin_clf \<and>
   length (slice_to (snd (dataset toy_lib)) 10) = length (slice_to (fst (dataset toy_lib)) 10) \<and>
   (\<forall>p. \<exists>v. decision_function lin_clf [p] = Inr [v]) \<and>
   fst (plot_svm toy_lib (Some 10) empty_world) = Inr () \<and>
   extents (snd (plot_svm toy_lib (Some 10) empty_world)) 0 = ((-1, 4), (-1, 6)) \<and>
   (\<exists>P. artists (axes_heap (snd (plot_svm toy_lib (Some 10) empty_world)) 0) ! 1 =
      margins (samples (-1, 4)) (samples (-1, 6)) P)"
proof -
  have tot: "\<forall>p. \<exists>v. decision_function lin_clf [p] = Inr [v]"
    by (simp add: lin_clf_total)
  have e: "next_ax empty_world = 0"
    by (simp add: empty_world_def)
  from plot_svm_window [OF toy_fit refl refl toy_len, of empty_world] tot toy_fit toy_len
  show ?thesis unfolding e by blast
qed

text \<open>
  Claim C8. Left out, the parameter \<open>N\<close> is 10. Whatever \<open>N\<close> is and whatever the state,
  the driver calls \<open>make_blobs\<close> first and once, with 200 samples, two centers, the
  random state 0 and the spread 0.6, and what it fits is cut from the result of this
  one call, which is the same in every call of the driver. With a \<open>make_blobs\<close> that
  returns as many points and labels as asked for and numbers the centers, the dataset
  has exactly 200 points and 200 labels, each label 0 or 1.
\<close>

theorem plot_svm_dataset:
  "plot_svm L None w = plot_svm L (Some 10) w \<and>
   (\<exists>cs. list_all (single_call (next_clf w)) cs \<and>
      lib_calls (snd (plot_svm L (Some N) w)) =
        lib_calls w @
          [MakeBlobs 200 2 0 (6 / 10),
           Fit ''linear'' (slice_to (fst (dataset L)) N) (slice_to (snd (dataset L)) N)] @ cs) \<and>
   dataset L = make_blobs L 200 2 0 (6 / 10) \<and>
   (blobs_contract L \<longrightarrow>
      length (fst (dataset L)) = 200 \<and> length (snd (dataset L)) = 200 \<and>
      list_all (\<lambda>l. l = 0 \<or> l = 1) (snd (dataset L)))"
  using plot_svm_default [of L w] plot_svm_calls [of w L N] blobs_contract_dataset [of L]
  by (simp add: dataset_def)

theorem plot_svm_dataset_witness:
  "blobs_contract toy_lib \<and>
   length (fst (dataset toy_lib)) = 200 \<and> length (snd (dataset toy_lib)) = 200 \<and>
   list_all (\<lambda>l. l = 0 \<or> l = 1) (snd (dataset toy_lib)) \<and>
   plot_svm toy_lib None empty_world = plot_svm toy_lib (Some 10) empty_world \<and>
   (\<exists>cs. lib_calls (snd (plot_svm toy_lib (Some 200) empty_world)) =
      [MakeBlobs 200 2 0 (6 / 10),
       Fit ''linear'' (slice_to (fst (dataset toy_lib)) 200)
         (slice_to (snd (dataset toy_lib)) 200)] @ cs)"
proof -
  have e: "lib_calls empty_world = []"
    by (simp add: empty_world_def)
  from plot_svm_dataset [of toy_lib empty_world 200] toy_lib_contract
  show ?thesis unfolding e by auto
qed

text \<open>
  Claim C10. When the fit has returned a classifier, the driver opens a new figure
  whose only surface is newly allocated and belongs to no figure that was open before,
  and all it draws goes there: every other surface is left as it was, so a later call of
  the driver leaves the surface of an earlier call untouched. What ends up on the new
  surface, its extents and the renderer's grid included, and the way the call ends are
  the same from whatever state the driver is called. (When the fit raises, nothing is
  drawn and no surface changes.)
\<close>

theorem plot_svm_fresh_figure:
  assumes wf: "wf_world w"
    and fit: "svc_fit L ''linear'' (slice_to (fst (dataset L)) N)
                (slice_to (snd (dataset L)) N) = Inr c"
  shows "figs (snd (plot_svm L (Some N) w)) = [next_ax w] # figs w \<and>
     \<not> list_ex (\<lambda>f. next_ax w \<in> set f) (figs w) \<and>
     (\<forall>b. b \<noteq> next_ax w \<longrightarrow> axes_heap (snd (plot_svm L (Some N) w)) b = axes_heap w b) \<and>
     wf_world (snd (plot_svm L (Some N) w)) \<and>
     (\<forall>M. axes_heap (snd (plot_svm L (Some M) (snd (plot_svm L (Some N) w)))) (next_ax w) =
           axes_heap (snd (plot_svm L (Some N) w)) (next_ax w)) \<and>
     (\<forall>v. fst (plot_svm L (Some N) v) = fst (plot_svm L (Some N) w) \<and>
          axes_heap (snd (plot_svm L (Some N) v)) (next_ax v) =
            axes_heap (snd (plot_svm L (Some N) w)) (next_ax w))"
proof -
  let ?w' = "snd (plot_svm L (Some N) w)"
  from plot_svm_shape [OF fit refl refl, of w] obtain A cs where
    s: "?w' =
       w\<lparr>clf_heap := (clf_heap w)(next_clf w := c),
         next_clf := Suc (next_clf w),
         axes_heap := (axes_heap w)(next_ax w := A),
         next_ax := Suc (next_ax w),
         figs := [next_ax w] # figs w,
         lib_calls := lib_calls w @
           [MakeBlobs 200 2 0 (6 / 10),
            Fit ''linear'' (slice_to (fst (dataset L)) N) (slice_to (snd (dataset L)) N)] @ cs\<rparr>"
    by blast
  have figs: "figs ?w' = [next_ax w] # figs w" and nxt: "next_ax ?w' = Suc (next_ax w)"
    unfolding s by simp_all
  have "wf_world ?w'"
    using wf unfolding wf_world_def figs nxt by (fastforce simp: list_all_iff)
  moreover have "axes_heap (snd (plot_svm L (Some M) ?w')) (next_ax w) =
      axes_heap ?w' (next_ax w)" for M
    by (rule plot_svm_other_axes) (simp add: nxt)
  moreover note figs wf_world_fresh [OF wf] plot_svm_other_axes [of _ w L N]
    plot_svm_independent [OF fit refl refl, of _ w]
  ultimately show ?thesis by blast
qed

theorem plot_svm_fresh_figure_witness:
  "wf_world two_axes_world \<and>
   svc_fit toy_lib ''linear'' (slice_to (fst (dataset toy_lib)) 10)
     (slice_to (snd (dataset toy_lib)) 10) = Inr lin_clf \<and>
   figs (snd (plot_svm toy_lib (Some 10) two_axes_world)) = [[2], [0], [1]] \<and>
   axes_heap (snd (plot_svm toy_lib (Some 10) two_axes_world)) 0 = new_axes \<and>
   artists (axes_heap (snd (plot_svm toy_lib (Some 10) two_axes_world)) 1) = [] \<and>
   wf_world (snd (plot_svm toy_lib (Some 10) two_axes_world)) \<and>
   axes_heap (snd (plot_svm toy_lib (Some 10) empty_world)) 0 =
     axes_heap (snd (plot_svm toy_lib (Some 10) two_axes_world)) 2"
proof -
  have wf: "wf_world two_axes_world"
    by (simp add: wf_world_def two_axes_world_def)
  have t: "next_ax two_axes_world = 2" "figs two_axes_world = [[0], [1]]"
    "axes_heap two_axes_world 0 = new_axes" "artists (axes_heap two_axes_world 1) = []"
    "next_ax empty_world = 0"
    by (simp_all add: two_axes_world_def empty_world_def)
  note inst = plot_svm_fresh_figure [OF wf toy_fit]
  from inst have other: "\<forall>b. b \<noteq> next_ax two_axes_world \<longrightarrow>
      axes_heap (snd (plot_svm toy_lib (Some 10) two_axes_world)) b = axes_heap two_axes_world b"
    by blast
  have "(0::nat) \<noteq> next_ax two_axes_world" and "(1::nat) \<noteq> next_ax two_axes_world"
    by (simp_all add: t(1))
  with other have "axes_heap (snd (plot_svm toy_lib (Some 10) two_axes_world)) 0 =
      axes_heap two_axes_world 0"
    and "axes_heap (snd (plot_svm toy_lib (Some 10) two_axes_world)) 1 =
      axes_heap two_axes_world 1"
    by blast+
  moreover from inst have "axes_heap (snd (plot_svm toy_lib (Some 10) empty_world))
      (next_ax empty_world) =
      axes_heap (snd (plot_svm toy_lib (Some 10) two_axes_world)) (next_ax two_axes_world)"
    by blast
  moreover from inst have "figs (snd (plot_svm toy_lib (Some 10) two_axes_world)) =
      [next_ax two_axes_world] # figs two_axes_world"
    and "wf_world (snd (plot_svm toy_lib (Some 10) two_axes_world))"
    by blast+
  moreover have "artists (axes_heap two_axes_world (Suc 0)) = []"
    by (simp add: two_axes_world_def)
  ultimately show ?thesis
    using wf toy_fit unfolding t by simp
qed

end
